theory Spec2Isabelle
  imports Complex_Main "HOL-Library.AList" "HOL-Library.Log_Nat"
begin

section \<open>Exceptions and messages\<close>

text \<open>
  The three exception classes of \<^verbatim>\<open>app.py\<close> (lines 6-13) carry their message.
  The others are built-in exceptions: \<open>KeyError\<close> from a dictionary access,
  \<open>OverflowError\<close> from the conversion of an integer to a float, \<open>OSError\<close> from
  opening, writing or closing a file, and \<open>UnicodeEncodeError\<close> from writing a text that
  the file's encoding cannot encode.
\<close>

datatype error =
    ProductNotFoundError string
  | InvalidQuantityError string
  | ValidationError string
  | KeyError string
  | OverflowError string
  | OSError string
  | UnicodeEncodeError string

text \<open>
  What a handler shows: \<^verbatim>\<open>st.success(text)\<close>, \<^verbatim>\<open>st.error(text)\<close> with a literal text,
  and \<^verbatim>\<open>st.error(e)\<close> with a caught exception.
\<close>

datatype message =
    success string
  | error_text string
  | error_exc error

section \<open>Catalog and cart\<close>

text \<open>
  \<^verbatim>\<open>self.products\<close> (lines 19-28): a dictionary, kept as an association list in
  insertion order. Prices are Python integers.
\<close>

definition products :: "(string \<times> int) list" where
  "products =
    [(''Laptop'', 50000),
     (''Headphones'', 1500),
     (''SamsungS22'', 60000),
     (''Shirt'', 800),
     (''Pant'', 1200),
     (''Apple'', 80),
     (''Banana'', 40),
     (''Papaya'', 60)]"

text \<open>
  A cart line is the dictionary \<^verbatim>\<open>{"price": price, "qty": quantity}\<close>; the cart
  \<^verbatim>\<open>st.session_state.cart\<close> is a dictionary from product name to line, kept as an
  association list in insertion order. Assignment to a key is \<open>AList.update\<close> (replace in
  place, or append), \<^verbatim>\<open>del\<close> is \<open>AList.delete\<close>, lookup is \<open>map_of\<close>.
\<close>

record cart_line =
  price :: int
  qty :: int

type_synonym cart = "(string \<times> cart_line) list"

text \<open>
  Python's \<^verbatim>\<open>str\<close> of an integer, used by the f-strings. (Newer Python versions refuse
  to convert an integer of more than 4300 digits; the number inputs cannot produce such
  numbers, and the limit is left out.)
\<close>

definition digit_char :: "nat \<Rightarrow> char" where
  "digit_char d = char_of (48 + d)"

fun str_nat :: "nat \<Rightarrow> string" where
  "str_nat n = (if n < 10 then [digit_char n] else str_nat (n div 10) @ [digit_char (n mod 10)])"

definition str_int :: "int \<Rightarrow> string" where
  "str_int i = (if i < 0 then CHR ''-'' # str_nat (nat (- i)) else str_nat (nat i))"

subsection \<open>Add to Cart (lines 96-110)\<close>

text \<open>The body of the \<^verbatim>\<open>try\<close>: the error raised, or the cart after the statement.\<close>

definition add_to_cart_try :: "cart \<Rightarrow> string \<Rightarrow> int \<Rightarrow> error + cart" where
  "add_to_cart_try cart product quantity =
    (case map_of products product of
       None \<Rightarrow> Inl (ProductNotFoundError ''Product not available!'')
     | Some p \<Rightarrow>
        (case map_of cart product of
           Some d \<Rightarrow> Inr (AList.update product (d\<lparr>qty := qty d + quantity\<rparr>) cart)
         | None \<Rightarrow> Inr (AList.update product \<lparr>price = p, qty = quantity\<rparr> cart)))"

text \<open>The handler: \<^verbatim>\<open>except Exception as e: st.error(e)\<close> leaves the cart as it was.\<close>

definition add_to_cart :: "cart \<Rightarrow> string \<Rightarrow> int \<Rightarrow> message \<times> cart" where
  "add_to_cart cart product quantity =
    (case add_to_cart_try cart product quantity of
       Inl e \<Rightarrow> (error_exc e, cart)
     | Inr cart' \<Rightarrow>
        (success (''Added '' @ str_int quantity @ '' x '' @ product @ '' to cart.''), cart'))"

text \<open>\<^verbatim>\<open>not st.session_state.cart\<close> (lines 117, 168): the dictionary has no key.\<close>

definition is_empty :: "cart \<Rightarrow> bool" where
  "is_empty cart = (cart = [])"

subsection \<open>Update Quantity and Remove Item (lines 126-148)\<close>

text \<open>
  The item select box, the quantity input and the two buttons are drawn only while the
  cart is not empty (\<^verbatim>\<open>if st.session_state.cart:\<close>, line 126): on an empty cart there
  is no button, nothing is shown and the cart stays empty. Otherwise Update Quantity runs
  \<^verbatim>\<open>st.session_state.cart[selected_item]["qty"] = new_qty\<close>, whose subscript raises
  \<open>KeyError\<close> for a key the cart does not have, and Remove Item runs
  \<^verbatim>\<open>del st.session_state.cart[selected_item]\<close>, which raises it likewise; the handler
  shows the exception and leaves the cart. Nothing else is checked.
\<close>

definition update_quantity :: "cart \<Rightarrow> string \<Rightarrow> int \<Rightarrow> message list \<times> cart" where
  "update_quantity cart selected_item new_qty =
    (if is_empty cart then ([], cart)
     else
      (case map_of cart selected_item of
         None \<Rightarrow> ([error_exc (KeyError selected_item)], cart)
       | Some d \<Rightarrow>
          ([success (''Updated '' @ selected_item @ '' quantity to '' @ str_int new_qty @ ''.'')],
           AList.update selected_item (d\<lparr>qty := new_qty\<rparr>) cart)))"

definition remove_item :: "cart \<Rightarrow> string \<Rightarrow> message list \<times> cart" where
  "remove_item cart selected_item =
    (if is_empty cart then ([], cart)
     else
      (case map_of cart selected_item of
         None \<Rightarrow> ([error_exc (KeyError selected_item)], cart)
       | Some d \<Rightarrow>
          ([success (''Removed '' @ selected_item @ '' from cart.'')],
           AList.delete selected_item cart)))"

subsection \<open>Clear Cart (lines 153-155)\<close>

text \<open>\<^verbatim>\<open>st.session_state.cart.clear()\<close>, outside any \<^verbatim>\<open>try\<close>: it cannot raise.\<close>

definition clear_cart :: "cart \<Rightarrow> message \<times> cart" where
  "clear_cart cart = (success ''Cart cleared successfully!'', [])"

text \<open>
  What the widgets of Add to Cart hand to the handler (lines 93-94): the select box
  offers the catalog's keys and the number input has \<^verbatim>\<open>min_value=1\<close>.
\<close>

definition offered_add :: "string \<Rightarrow> int \<Rightarrow> bool" where
  "offered_add product quantity = (product \<in> set (map fst products) \<and> 1 \<le> quantity)"

section \<open>Validator\<close>

text \<open>
  \<^verbatim>\<open>re.fullmatch(pattern, s)\<close> succeeds when the whole string is a word of the
  pattern. The two patterns of the source use character classes, literals, grouping,
  alternation, \<^verbatim>\<open>?\<close>, \<^verbatim>\<open>+\<close> and \<^verbatim>\<open>{n}\<close>; they are kept as regular expressions
  and matched by derivatives. \<open>Never\<close> (no word) only arises as a derivative. A class
  is a list of inclusive ranges, compared by character code, as \<^verbatim>\<open>[A-Za-z ]\<close> is.
  A string is the list of its bytes in UTF-8: the classes of both patterns are ASCII, so
  a character outside ASCII (bytes from 128 on) is in none of them.
\<close>

datatype regex =
    Never
  | Empty
  | Class "(char \<times> char) list"
  | Seq regex regex
  | Alt regex regex
  | Star regex

definition in_class :: "(char \<times> char) list \<Rightarrow> char \<Rightarrow> bool" where
  "in_class ranges c =
    list_ex (\<lambda>(lo, hi). (of_char lo :: nat) \<le> of_char c \<and> (of_char c :: nat) \<le> of_char hi) ranges"

text \<open>A literal character, \<^verbatim>\<open>r?\<close>, \<^verbatim>\<open>r+\<close> and \<^verbatim>\<open>r{n}\<close>.\<close>

definition Lit :: "char \<Rightarrow> regex" where
  "Lit c = Class [(c, c)]"

definition Opt :: "regex \<Rightarrow> regex" where
  "Opt r = Alt r Empty"

definition Plus :: "regex \<Rightarrow> regex" where
  "Plus r = Seq r (Star r)"

fun Repeat :: "nat \<Rightarrow> regex \<Rightarrow> regex" where
  "Repeat 0 r = Empty"
| "Repeat (Suc n) r = Seq r (Repeat n r)"

fun nullable :: "regex \<Rightarrow> bool" where
  "nullable Never = False"
| "nullable Empty = True"
| "nullable (Class ranges) = False"
| "nullable (Seq r s) = (nullable r \<and> nullable s)"
| "nullable (Alt r s) = (nullable r \<or> nullable s)"
| "nullable (Star r) = True"

fun deriv :: "char \<Rightarrow> regex \<Rightarrow> regex" where
  "deriv c Never = Never"
| "deriv c Empty = Never"
| "deriv c (Class ranges) = (if in_class ranges c then Empty else Never)"
| "deriv c (Seq r s) =
     (if nullable r then Alt (Seq (deriv c r) s) (deriv c s) else Seq (deriv c r) s)"
| "deriv c (Alt r s) = Alt (deriv c r) (deriv c s)"
| "deriv c (Star r) = Seq (deriv c r) (Star r)"

fun fullmatch :: "regex \<Rightarrow> string \<Rightarrow> bool" where
  "fullmatch r [] = nullable r"
| "fullmatch r (c # cs) = fullmatch (deriv c r) cs"

text \<open>\<^verbatim>\<open>r"[A-Za-z ]+"\<close> (line 31) and \<^verbatim>\<open>r"(0|91)?[0-9]{10}"\<close> (line 36).\<close>

definition name_pattern :: regex where
  "name_pattern = Plus (Class [(CHR ''A'', CHR ''Z''), (CHR ''a'', CHR ''z''), (CHR '' '', CHR '' '')])"

definition phone_pattern :: regex where
  "phone_pattern =
     Seq (Opt (Alt (Lit CHR ''0'') (Seq (Lit CHR ''9'') (Lit CHR ''1''))))
         (Repeat 10 (Class [(CHR ''0'', CHR ''9'')]))"

text \<open>\<^verbatim>\<open>validate_name\<close> (lines 30-33) and \<^verbatim>\<open>validate_phone\<close> (lines 35-38).\<close>

definition validate_name :: "string \<Rightarrow> error + bool" where
  "validate_name name =
    (if \<not> fullmatch name_pattern name
     then Inl (ValidationError ''Customer name must contain only alphabets and spaces.'')
     else Inr True)"

definition validate_phone :: "string \<Rightarrow> error + bool" where
  "validate_phone phone =
    (if \<not> fullmatch phone_pattern phone
     then Inl (ValidationError ''Phone number must be 10 digits (0 or 91 optional).'')
     else Inr True)"

section \<open>Python floats\<close>

text \<open>
  A Python \<^verbatim>\<open>float\<close> is an IEEE 754 binary64 value: a finite one is kept as the
  rational number it denotes (the two zeros are one value here; the computations of
  \<^verbatim>\<open>generate_invoice\<close> never produce a negative zero), the others are the infinities
  and NaN. Every operation returns the exact result rounded to the nearest binary64
  value, ties to the even significand (\<open>round_double\<close>): with \<open>e\<close> the exponent of the
  exact result, at least \<open>-1022\<close>, the result is a multiple of \<open>2 ^ (e - 52)\<close>, and
  a rounded magnitude of \<open>2 ^ 1024\<close> or more is an infinity.
\<close>

datatype pyfloat = Finite rat | PosInf | NegInf | NaN

definition pow2 :: "int \<Rightarrow> rat" where
  "pow2 e = (if 0 \<le> e then 2 ^ nat e else 1 / 2 ^ nat (- e))"

text \<open>For \<open>0 < x\<close>, the integer \<open>e\<close> with \<open>2 ^ e \<le> x < 2 ^ (e + 1)\<close>.\<close>

definition floor_log2 :: "rat \<Rightarrow> int" where
  "floor_log2 x = (if 1 \<le> x then bitlen \<lfloor>x\<rfloor> - 1 else - bitlen (\<lceil>1 / x\<rceil> - 1))"

definition round_half_even :: "rat \<Rightarrow> int" where
  "round_half_even x =
    (let f = \<lfloor>x\<rfloor>; r = x - of_int f
     in if r < 1 / 2 then f else if 1 / 2 < r then f + 1 else if even f then f else f + 1)"

definition round_double :: "rat \<Rightarrow> pyfloat" where
  "round_double x =
    (if x = 0 then Finite 0
     else let e = max (floor_log2 \<bar>x\<bar>) (- 1022);
              ulp = pow2 (e - 52);
              y = of_int (round_half_even (x / ulp)) * ulp
          in if pow2 1024 \<le> \<bar>y\<bar> then (if 0 < x then PosInf else NegInf) else Finite y)"

text \<open>The literal \<^verbatim>\<open>0.10\<close> (line 42) is the binary64 value nearest to one tenth.\<close>

definition gst_rate :: pyfloat where
  "gst_rate = round_double (1 / 10)"

text \<open>
  An integer operand of a float operation is converted first; the conversion rounds
  the same way and raises \<open>OverflowError\<close> when the integer is too large.
\<close>

definition float_of_int :: "int \<Rightarrow> error + pyfloat" where
  "float_of_int i =
    (case round_double (of_int i) of
       Finite y \<Rightarrow> Inr (Finite y)
     | _ \<Rightarrow> Inl (OverflowError ''int too large to convert to float''))"

fun fmul :: "pyfloat \<Rightarrow> pyfloat \<Rightarrow> pyfloat" where
  "fmul NaN y = NaN"
| "fmul x NaN = NaN"
| "fmul (Finite a) (Finite b) = round_double (a * b)"
| "fmul (Finite a) PosInf = (if a = 0 then NaN else if 0 < a then PosInf else NegInf)"
| "fmul (Finite a) NegInf = (if a = 0 then NaN else if 0 < a then NegInf else PosInf)"
| "fmul PosInf (Finite b) = (if b = 0 then NaN else if 0 < b then PosInf else NegInf)"
| "fmul NegInf (Finite b) = (if b = 0 then NaN else if 0 < b then NegInf else PosInf)"
| "fmul PosInf PosInf = PosInf"
| "fmul PosInf NegInf = NegInf"
| "fmul NegInf PosInf = NegInf"
| "fmul NegInf NegInf = PosInf"

fun fadd :: "pyfloat \<Rightarrow> pyfloat \<Rightarrow> pyfloat" where
  "fadd NaN y = NaN"
| "fadd x NaN = NaN"
| "fadd (Finite a) (Finite b) = round_double (a + b)"
| "fadd (Finite a) PosInf = PosInf"
| "fadd (Finite a) NegInf = NegInf"
| "fadd PosInf (Finite b) = PosInf"
| "fadd NegInf (Finite b) = NegInf"
| "fadd PosInf PosInf = PosInf"
| "fadd PosInf NegInf = NaN"
| "fadd NegInf PosInf = NaN"
| "fadd NegInf NegInf = NegInf"

section \<open>Invoice\<close>

text \<open>
  What \<^verbatim>\<open>generate_invoice\<close> and Place Order take from outside the program:
  \<^item> \<open>now\<close>: the formatted time of the call,
    \<^verbatim>\<open>datetime.now().strftime('%Y-%m-%d %H:%M:%S')\<close>;
  \<^item> \<open>repr_other\<close>: Python's text of a float in the cases \<open>float_str\<close> below leaves open;
  \<^item> \<open>opens\<close>: whether \<^verbatim>\<open>open(path, "w")\<close> succeeds (it creates the file or empties it);
  \<^item> \<open>write_error\<close>: for a path and a text, nothing when \<^verbatim>\<open>f.write(text)\<close> and the
    closing of the file succeed, otherwise the exception raised and what the file holds
    then. The file is opened with the default encoding and the text always contains the
    rupee sign, so where that encoding has no rupee sign the write raises
    \<open>UnicodeEncodeError\<close> and leaves the file empty;
  \<^item> \<open>reads\<close>: whether \<^verbatim>\<open>open(path, "rb")\<close> succeeds.
\<close>

record env =
  now :: string
  repr_other :: "pyfloat \<Rightarrow> string"
  opens :: "string \<Rightarrow> bool"
  write_error :: "string \<Rightarrow> string \<Rightarrow> (error \<times> string) option"
  reads :: "string \<Rightarrow> bool"

text \<open>The files: path to content. A text is kept as its bytes in UTF-8.\<close>

type_synonym files = "string \<rightharpoonup> string"

text \<open>The line feed, and the rupee sign U+20B9 in UTF-8.\<close>

definition nl :: string where
  "nl = [char_of (10 :: nat)]"

definition rupee :: string where
  "rupee = [char_of (226 :: nat), char_of (130 :: nat), char_of (185 :: nat)]"

text \<open>\<^verbatim>\<open>sep.join(xs)\<close>.\<close>

fun join :: "string \<Rightarrow> string list \<Rightarrow> string" where
  "join sep [] = []"
| "join sep [x] = x"
| "join sep (x # y # ys) = x @ sep @ join sep (y # ys)"

text \<open>
  A float in an f-string is its \<^verbatim>\<open>repr\<close>, the shortest decimal text that reads back as
  the same float. For a float that is an integer of magnitude below \<open>10 ^ 16\<close> it is the
  integer's digits followed by \<^verbatim>\<open>.0\<close>; the infinities and NaN are \<^verbatim>\<open>inf\<close>, \<^verbatim>\<open>-inf\<close>
  and \<^verbatim>\<open>nan\<close>; the other cases are left to \<open>repr_other\<close>.
\<close>

definition float_str :: "env \<Rightarrow> pyfloat \<Rightarrow> string" where
  "float_str e x =
    (case x of
       Finite q \<Rightarrow>
        (if q = of_int \<lfloor>q\<rfloor> \<and> \<bar>q\<bar> < 10 ^ 16 then str_int \<lfloor>q\<rfloor> @ ''.0''
         else repr_other e x)
     | PosInf \<Rightarrow> ''inf''
     | NegInf \<Rightarrow> ''-inf''
     | NaN \<Rightarrow> ''nan'')"

text \<open>
  The loop of lines 52-55 over \<^verbatim>\<open>cart.items()\<close>: it reads each line, adds its cost
  to \<^verbatim>\<open>total\<close> (here \<open>tot\<close>) and appends one text line to \<^verbatim>\<open>invoice\<close>.
\<close>

fun invoice_items :: "cart \<Rightarrow> int \<Rightarrow> string list \<Rightarrow> int \<times> string list" where
  "invoice_items [] tot invoice = (tot, invoice)"
| "invoice_items ((item, d) # rest) tot invoice =
    (let cost = price d * qty d
     in invoice_items rest (tot + cost)
          (invoice @ [item @ '' - '' @ str_int (qty d) @ '' pcs - '' @ rupee @ str_int cost]))"

text \<open>
  Lines 41-65 of \<^verbatim>\<open>generate_invoice\<close>: the text of the invoice, or the
  \<open>OverflowError\<close> of \<^verbatim>\<open>total * gst_rate\<close> for a total too large for a float.
\<close>

definition invoice_text :: "env \<Rightarrow> string \<Rightarrow> string \<Rightarrow> cart \<Rightarrow> error + string" where
  "invoice_text e customer_name phone cart =
    (case invoice_items cart 0
            [''********** INVOICE **********'' @ nl,
             ''Customer Name: '' @ customer_name,
             ''Phone Number: '' @ phone,
             ''Date: '' @ now e @ nl,
             ''Items Purchased:''] of
       (tot, invoice) \<Rightarrow>
        (case float_of_int tot of
           Inl err \<Rightarrow> Inl err
         | Inr t \<Rightarrow>
            (let gst_amount = fmul t gst_rate;
                 grand_total = fadd t gst_amount
             in Inr (join nl
                  (invoice @
                   [nl @ ''Subtotal: '' @ rupee @ str_int tot,
                    ''GST (10%): '' @ rupee @ float_str e gst_amount,
                    ''Total Amount: '' @ rupee @ float_str e grand_total,
                    nl @ ''Thank you for shopping with us!''])))))"

text \<open>
  \<^verbatim>\<open>generate_invoice\<close> (lines 40-70): it builds the text, opens the file, writes the
  text and returns the path. The result is what the call returns or raises, the files
  afterwards, and the dictionary passed as \<^verbatim>\<open>cart\<close> afterwards (the caller passes
  \<^verbatim>\<open>st.session_state.cart\<close> itself, not a copy).
\<close>

definition generate_invoice ::
    "env \<Rightarrow> files \<Rightarrow> string \<Rightarrow> string \<Rightarrow> string \<Rightarrow> cart \<Rightarrow> (error + string) \<times> files \<times> cart" where
  "generate_invoice e fs filename customer_name phone cart =
    (case invoice_text e customer_name phone cart of
       Inl err \<Rightarrow> (Inl err, fs, cart)
     | Inr body \<Rightarrow>
        (if \<not> opens e (filename @ ''.txt'')
         then (Inl (OSError (filename @ ''.txt'')), fs, cart)
         else
          (case write_error e (filename @ ''.txt'') body of
             Some (err, left) \<Rightarrow> (Inl err, fs(filename @ ''.txt'' \<mapsto> left), cart)
           | None \<Rightarrow> (Inr (filename @ ''.txt''), fs(filename @ ''.txt'' \<mapsto> body), cart))))"

subsection \<open>Place Order (lines 166-186)\<close>

text \<open>
  \<^verbatim>\<open>filename.strip()\<close> removes white space at both ends. \<open>whitespace\<close> lists the
  characters Python counts as white space, each in UTF-8: the ASCII ones (tab, line feed,
  vertical tab, form feed, carriage return, the separators 28-31, space), then U+0085,
  U+00A0, U+1680, U+2000 to U+200A, U+2028, U+2029, U+202F, U+205F and U+3000.
\<close>

definition whitespace :: "string list" where
  "whitespace =
     map (\<lambda>n. [char_of n]) [9, 10, 11, 12, 13, 28, 29, 30, 31, 32 :: nat] @
     map (map char_of)
       [[194, 133], [194, 160], [225, 154, 128],
        [226, 128, 128], [226, 128, 129], [226, 128, 130], [226, 128, 131],
        [226, 128, 132], [226, 128, 133], [226, 128, 134], [226, 128, 135],
        [226, 128, 136], [226, 128, 137], [226, 128, 138],
        [226, 128, 168], [226, 128, 169], [226, 128, 175],
        [226, 129, 159], [227, 128, 128 :: nat]]"

text \<open>Removing, as long as there is one, a leading occurrence of one of the words \<open>ws\<close>.\<close>

function strip_prefixes :: "string list \<Rightarrow> string \<Rightarrow> string" where
  "strip_prefixes ws s =
     (case find (\<lambda>w. w \<noteq> [] \<and> take (length w) s = w) ws of
        None \<Rightarrow> s
      | Some w \<Rightarrow> strip_prefixes ws (drop (length w) s))"
  by pat_completeness auto
termination
proof (relation "measure (\<lambda>(ws, s). length s)")
  show "wf (measure (\<lambda>(ws, s). length s))" by simp
next
  fix ws :: "string list" and s w :: string
  assume "find (\<lambda>w. w \<noteq> [] \<and> take (length w) s = w) ws = Some w"
  then have w: "w \<noteq> []" "take (length w) s = w"
    by (auto simp: find_Some_iff)
  then have "s \<noteq> []" by auto
  then have "length (drop (length w) s) < length s" using w(1) by simp
  then show "((ws, drop (length w) s), (ws, s)) \<in> measure (\<lambda>(ws, s). length s)"
    by simp
qed

definition strip :: "string \<Rightarrow> string" where
  "strip s = rev (strip_prefixes (map rev whitespace) (rev (strip_prefixes whitespace s)))"

text \<open>
  The handler shows its messages, and leaves the files and the cart. After a successful
  \<^verbatim>\<open>generate_invoice\<close> it shows the success, opens the written file for the download
  button and clears the cart; when the file cannot be opened for reading, the exception
  is shown after the success and the cart is not cleared.
\<close>

definition place_order ::
    "env \<Rightarrow> files \<Rightarrow> cart \<Rightarrow> string \<Rightarrow> string \<Rightarrow> string \<Rightarrow> message list \<times> files \<times> cart" where
  "place_order e fs cart customer_name phone filename =
    (if is_empty cart
     then ([error_text ''Cart is empty! Add items before placing order.''], fs, cart)
     else
      (case validate_name customer_name of
         Inl err \<Rightarrow> ([error_exc err], fs, cart)
       | Inr _ \<Rightarrow>
          (case validate_phone phone of
             Inl err \<Rightarrow> ([error_exc err], fs, cart)
           | Inr _ \<Rightarrow>
              (if strip filename = []
               then ([error_text ''File name cannot be empty!''], fs, cart)
               else
                (case generate_invoice e fs filename customer_name phone cart of
                   (Inl err, fs', cart') \<Rightarrow> ([error_exc err], fs', cart')
                 | (Inr file_path, fs', cart') \<Rightarrow>
                    (if reads e file_path
                     then ([success (''Order placed! Invoice generated: '' @ file_path)],
                           fs', [])
                     else ([success (''Order placed! Invoice generated: '' @ file_path),
                            error_exc (OSError file_path)], fs', cart')))))))"

section \<open>Sessions\<close>

text \<open>
  A session starts with the empty cart (line 81); every run of the script handles at
  most one button. The carts a session can hold, whatever the widgets hand over:
\<close>

inductive reachable :: "cart \<Rightarrow> bool" where
  start: "reachable []"
| add: "reachable cart \<Longrightarrow> reachable (snd (add_to_cart cart product quantity))"
| update: "reachable cart \<Longrightarrow> reachable (snd (update_quantity cart selected_item new_qty))"
| remove: "reachable cart \<Longrightarrow> reachable (snd (remove_item cart selected_item))"
| clear: "reachable cart \<Longrightarrow> reachable (snd (clear_cart cart))"
| order: "reachable cart \<Longrightarrow>
          reachable (snd (snd (place_order e fs cart customer_name phone filename)))"

text \<open>Pressing Add to Cart once for each entry of a list of selections.\<close>

fun add_all :: "cart \<Rightarrow> (string \<times> int) list \<Rightarrow> cart" where
  "add_all cart [] = cart"
| "add_all cart ((product, quantity) # rest) =
     add_all (snd (add_to_cart cart product quantity)) rest"

text \<open>
  The lines a cart holds for a product, the quantity of its line (0 without one), and
  the quantities a list of selections adds for it.
\<close>

definition lines_of :: "cart \<Rightarrow> string \<Rightarrow> cart_line list" where
  "lines_of cart product = map snd (filter (\<lambda>l. fst l = product) cart)"

definition line_qty :: "cart \<Rightarrow> string \<Rightarrow> int" where
  "line_qty cart product = (case map_of cart product of None \<Rightarrow> 0 | Some d \<Rightarrow> qty d)"

definition added_qty :: "(string \<times> int) list \<Rightarrow> string \<Rightarrow> int" where
  "added_qty adds product = sum_list (map snd (filter (\<lambda>a. fst a = product) adds))"

text \<open>Every line of the cart has the catalog's price of its product.\<close>

definition priced :: "cart \<Rightarrow> bool" where
  "priced cart = (\<forall>(product, d) \<in> set cart. map_of products product = Some (price d))"

section \<open>Languages of regular expressions\<close>

text \<open>The words a regular expression denotes; \<open>fullmatch\<close> decides membership.\<close>

definition conc :: "string set \<Rightarrow> string set \<Rightarrow> string set" where
  "conc A B = {u @ v | u v. u \<in> A \<and> v \<in> B}"

inductive_set star :: "string set \<Rightarrow> string set" for A :: "string set" where
  star_nil: "[] \<in> star A"
| star_step: "u \<in> A \<Longrightarrow> v \<in> star A \<Longrightarrow> u @ v \<in> star A"

fun lang :: "regex \<Rightarrow> string set" where
  "lang Never = {}"
| "lang Empty = {[]}"
| "lang (Class ranges) = {[c] | c. in_class ranges c}"
| "lang (Seq r s) = conc (lang r) (lang s)"
| "lang (Alt r s) = lang r \<union> lang s"
| "lang (Star r) = star (lang r)"

section \<open>The matcher decides the language\<close>

lemma nullable_lang: "nullable r \<longleftrightarrow> [] \<in> lang r"
  by (induction r) (auto simp: conc_def intro: star_nil)

lemma cons_in_conc:
  "c # w \<in> conc A B \<longleftrightarrow>
     (\<exists>u v. w = u @ v \<and> c # u \<in> A \<and> v \<in> B) \<or> ([] \<in> A \<and> c # w \<in> B)"
proof
  assume "c # w \<in> conc A B"
  then obtain u v where uv: "c # w = u @ v" "u \<in> A" "v \<in> B"
    by (auto simp: conc_def)
  show "(\<exists>u v. w = u @ v \<and> c # u \<in> A \<and> v \<in> B) \<or> ([] \<in> A \<and> c # w \<in> B)"
  proof (cases u)
    case Nil
    then show ?thesis using uv by simp
  next
    case (Cons a u')
    then have "w = u' @ v" "c # u' \<in> A" using uv by auto
    then show ?thesis using uv(3) by blast
  qed
next
  assume "(\<exists>u v. w = u @ v \<and> c # u \<in> A \<and> v \<in> B) \<or> ([] \<in> A \<and> c # w \<in> B)"
  then show "c # w \<in> conc A B"
  proof
    assume "\<exists>u v. w = u @ v \<and> c # u \<in> A \<and> v \<in> B"
    then obtain u v where "w = u @ v" "c # u \<in> A" "v \<in> B" by blast
    then have "c # w = (c # u) @ v \<and> c # u \<in> A \<and> v \<in> B" by simp
    then show ?thesis unfolding conc_def by blast
  next
    assume "[] \<in> A \<and> c # w \<in> B"
    then have "c # w = [] @ (c # w) \<and> [] \<in> A \<and> c # w \<in> B" by simp
    then show ?thesis unfolding conc_def by blast
  qed
qed

lemma star_cons_split:
  "x \<in> star A \<Longrightarrow> x = c # w \<Longrightarrow> \<exists>u v. w = u @ v \<and> c # u \<in> A \<and> v \<in> star A"
proof (induction arbitrary: w rule: star.induct)
  case star_nil
  then show ?case by simp
next
  case (star_step u v)
  show ?case
  proof (cases u)
    case Nil
    then show ?thesis using star_step by simp
  next
    case (Cons a u')
    then have "w = u' @ v" "c # u' \<in> A" using star_step.prems star_step.hyps(1) by auto
    then show ?thesis using star_step.hyps(2) by blast
  qed
qed

lemma cons_in_star:
  "c # w \<in> star A \<longleftrightarrow> (\<exists>u v. w = u @ v \<and> c # u \<in> A \<and> v \<in> star A)"
proof
  assume "c # w \<in> star A"
  then show "\<exists>u v. w = u @ v \<and> c # u \<in> A \<and> v \<in> star A"
    using star_cons_split by blast
next
  assume "\<exists>u v. w = u @ v \<and> c # u \<in> A \<and> v \<in> star A"
  then obtain u v where "w = u @ v" "c # u \<in> A" "v \<in> star A" by blast
  then show "c # w \<in> star A" using star_step [of "c # u" A v] by simp
qed

lemma lang_deriv: "w \<in> lang (deriv c r) \<longleftrightarrow> c # w \<in> lang r"
proof (induction r arbitrary: w)
  case (Seq r s)
  show ?case
    by (simp add: cons_in_conc nullable_lang Seq) (auto simp: conc_def Seq)
next
  case (Star r)
  show ?case
    by (simp add: cons_in_star) (auto simp: conc_def Star)
qed auto

lemma fullmatch_lang: "fullmatch r s \<longleftrightarrow> s \<in> lang r"
  by (induction s arbitrary: r) (simp_all add: nullable_lang lang_deriv)

section \<open>Languages of the two patterns\<close>

lemma char_between:
  "((of_char lo :: nat) \<le> of_char c \<and> (of_char c :: nat) \<le> of_char hi) \<longleftrightarrow>
     c \<in> char_of ` {of_char lo .. of_char hi :: nat}"
proof
  assume "(of_char lo :: nat) \<le> of_char c \<and> (of_char c :: nat) \<le> of_char hi"
  then have "(of_char c :: nat) \<in> {of_char lo .. of_char hi}" by simp
  then have "char_of (of_char c :: nat) \<in> char_of ` {of_char lo .. of_char hi :: nat}"
    by (rule imageI)
  then show "c \<in> char_of ` {of_char lo .. of_char hi :: nat}" by simp
next
  assume "c \<in> char_of ` {of_char lo .. of_char hi :: nat}"
  then obtain n :: nat where n: "c = char_of n" "of_char lo \<le> n" "n \<le> of_char hi" by auto
  have hi: "(of_char hi :: nat) < 256" by simp
  from n(3) hi have "n < 256" by (rule le_less_trans)
  then have "of_char c = n" using n(1) by simp
  then show "(of_char lo :: nat) \<le> of_char c \<and> (of_char c :: nat) \<le> of_char hi"
    using n by simp
qed

lemma digits_enum: "map char_of [48 ..< 58 :: nat] = ''0123456789''"
  by code_simp

lemma upper_enum: "map char_of [65 ..< 91 :: nat] = ''ABCDEFGHIJKLMNOPQRSTUVWXYZ''"
  by code_simp

lemma lower_enum: "map char_of [97 ..< 123 :: nat] = ''abcdefghijklmnopqrstuvwxyz''"
  by code_simp

lemma char_of_interval: "char_of ` {a .. b :: nat} = set (map char_of [a ..< Suc b])"
  by (simp only: atLeastAtMost_upt set_map)

lemma digit_class:
  "in_class [(CHR ''0'', CHR ''9'')] c \<longleftrightarrow> c \<in> set ''0123456789''"
proof -
  have "in_class [(CHR ''0'', CHR ''9'')] c \<longleftrightarrow> c \<in> char_of ` {48 .. 57 :: nat}"
    unfolding in_class_def list_ex_iff using char_between [of "CHR ''0''" c "CHR ''9''"] by simp
  also have "char_of ` {48 .. 57 :: nat} = set (map char_of [48 ..< 58])"
    by (simp only: char_of_interval) simp
  finally show ?thesis by (simp only: digits_enum)
qed

lemma name_class:
  "in_class [(CHR ''A'', CHR ''Z''), (CHR ''a'', CHR ''z''), (CHR '' '', CHR '' '')] c \<longleftrightarrow>
     c \<in> set ''ABCDEFGHIJKLMNOPQRSTUVWXYZabcdefghijklmnopqrstuvwxyz ''"
proof -
  have up: "char_of ` {65 .. 90 :: nat} = set ''ABCDEFGHIJKLMNOPQRSTUVWXYZ''"
    using upper_enum by (simp only: char_of_interval) simp
  have lo: "char_of ` {97 .. 122 :: nat} = set ''abcdefghijklmnopqrstuvwxyz''"
    using lower_enum by (simp only: char_of_interval) simp
  have sp: "char_of ` {32 .. 32 :: nat} = {CHR '' ''}"
    by simp code_simp
  have "in_class [(CHR ''A'', CHR ''Z''), (CHR ''a'', CHR ''z''), (CHR '' '', CHR '' '')] c \<longleftrightarrow>
        c \<in> char_of ` {65 .. 90 :: nat} \<or> c \<in> char_of ` {97 .. 122 :: nat} \<or>
        c \<in> char_of ` {32 .. 32 :: nat}"
    unfolding in_class_def list_ex_iff
    using char_between [of "CHR ''A''" c "CHR ''Z''"] char_between [of "CHR ''a''" c "CHR ''z''"]
      char_between [of "CHR '' ''" c "CHR '' ''"]
    by simp
  also have "\<dots> \<longleftrightarrow> c \<in> set ''ABCDEFGHIJKLMNOPQRSTUVWXYZ'' \<or>
       c \<in> set ''abcdefghijklmnopqrstuvwxyz'' \<or> c = CHR '' ''"
    by (simp only: up lo sp) simp
  also have "\<dots> \<longleftrightarrow> c \<in> set ''ABCDEFGHIJKLMNOPQRSTUVWXYZabcdefghijklmnopqrstuvwxyz ''"
    by auto
  finally show ?thesis .
qed

lemma star_class:
  "s \<in> star {[c] | c. P c} \<longleftrightarrow> (\<forall>c \<in> set s. P c)"
proof
  assume "s \<in> star {[c] | c. P c}"
  then show "\<forall>c \<in> set s. P c"
    by (induction rule: star.induct) auto
next
  assume "\<forall>c \<in> set s. P c"
  then show "s \<in> star {[c] | c. P c}"
  proof (induction s)
    case Nil
    show ?case by (rule star_nil)
  next
    case (Cons a s)
    have "[a] \<in> {[c] | c. P c}" using Cons.prems by simp
    moreover have "s \<in> star {[c] | c. P c}" using Cons by simp
    ultimately have "[a] @ s \<in> star {[c] | c. P c}" by (rule star_step)
    then show ?case by simp
  qed
qed

lemma lang_plus_class:
  "s \<in> lang (Plus (Class ranges)) \<longleftrightarrow> s \<noteq> [] \<and> (\<forall>c \<in> set s. in_class ranges c)"
proof (cases s)
  case Nil
  then show ?thesis by (simp add: Plus_def conc_def)
next
  case (Cons a w)
  have "a # w \<in> lang (Plus (Class ranges)) \<longleftrightarrow> in_class ranges a \<and> w \<in> star {[c] | c. in_class ranges c}"
    by (auto simp: Plus_def cons_in_conc)
  then show ?thesis using Cons by (simp add: star_class)
qed

lemma lang_repeat_class:
  "s \<in> lang (Repeat n (Class ranges)) \<longleftrightarrow> length s = n \<and> (\<forall>c \<in> set s. in_class ranges c)"
proof (induction n arbitrary: s)
  case 0
  show ?case by auto
next
  case (Suc n)
  show ?case
  proof (cases s)
    case Nil
    then show ?thesis by (simp add: conc_def)
  next
    case (Cons a w)
    have "a # w \<in> lang (Repeat (Suc n) (Class ranges)) \<longleftrightarrow>
          in_class ranges a \<and> w \<in> lang (Repeat n (Class ranges))"
      by (auto simp: cons_in_conc)
    also have "\<dots> \<longleftrightarrow> in_class ranges a \<and> length w = n \<and> (\<forall>c \<in> set w. in_class ranges c)"
      by (simp only: Suc)
    also have "\<dots> \<longleftrightarrow> length (a # w) = Suc n \<and> (\<forall>c \<in> set (a # w). in_class ranges c)"
      by auto
    finally show ?thesis unfolding Cons .
  qed
qed

lemma lang_lit: "lang (Lit c) = {[c]}"
  by (auto simp: Lit_def in_class_def)

lemma lang_phone_prefix:
  "lang (Opt (Alt (Lit CHR ''0'') (Seq (Lit CHR ''9'') (Lit CHR ''1'')))) = {[], ''0'', ''91''}"
  by (auto simp: Opt_def lang_lit conc_def)

lemma conc_three:
  "s \<in> conc {[], a, b} D \<longleftrightarrow> (\<exists>d. (s = d \<or> s = a @ d \<or> s = b @ d) \<and> d \<in> D)"
  by (auto simp: conc_def)

lemma lang_phone_pattern:
  "s \<in> lang phone_pattern \<longleftrightarrow>
     (\<exists>d. (s = d \<or> s = ''0'' @ d \<or> s = ''91'' @ d) \<and>
          length d = 10 \<and> (\<forall>c \<in> set d. in_class [(CHR ''0'', CHR ''9'')] c))"
  unfolding phone_pattern_def lang.simps lang_phone_prefix conc_three lang_repeat_class ..

lemma phone_shape:
  assumes "P CHR ''0''" and "P CHR ''9''" and "P CHR ''1''"
  shows "(\<exists>d. (s = d \<or> s = ''0'' @ d \<or> s = ''91'' @ d) \<and>
          length d = 10 \<and> (\<forall>c \<in> set d. P c)) \<longleftrightarrow>
   (\<forall>c \<in> set s. P c) \<and>
   (length s = 10 \<or> (length s = 11 \<and> take 1 s = ''0'') \<or> (length s = 12 \<and> take 2 s = ''91''))"
  (is "?L \<longleftrightarrow> ?R")
proof
  assume ?L
  then obtain d where d: "s = d \<or> s = ''0'' @ d \<or> s = ''91'' @ d" "length d = 10"
    "\<forall>c \<in> set d. P c" by blast
  from d(1) show ?R
  proof (elim disjE)
    assume "s = d" then show ?R using d by simp
  next
    assume "s = ''0'' @ d" then show ?R using d assms by simp
  next
    assume "s = ''91'' @ d" then show ?R using d assms by simp
  qed
next
  assume R: ?R
  then have dig: "\<forall>c \<in> set s. P c" by blast
  from R have "length s = 10 \<or> (length s = 11 \<and> take 1 s = ''0'') \<or> (length s = 12 \<and> take 2 s = ''91'')"
    by blast
  then show ?L
  proof (elim disjE)
    assume "length s = 10"
    then show ?L using dig by blast
  next
    assume a: "length s = 11 \<and> take 1 s = ''0''"
    then have "s = ''0'' @ drop 1 s" by (metis append_take_drop_id)
    moreover have "length (drop 1 s) = 10" using a by simp
    moreover have "\<forall>c \<in> set (drop 1 s). P c"
      using dig by (meson in_set_dropD)
    ultimately show ?L by blast
  next
    assume a: "length s = 12 \<and> take 2 s = ''91''"
    then have "s = ''91'' @ drop 2 s" by (metis append_take_drop_id)
    moreover have "length (drop 2 s) = 10" using a by simp
    moreover have "\<forall>c \<in> set (drop 2 s). P c"
      using dig by (meson in_set_dropD)
    ultimately show ?L by blast
  qed
qed

section \<open>Validator: what the patterns accept\<close>

text \<open>
  C5. \<^verbatim>\<open>validate_phone\<close> succeeds exactly on the strings made of digits only that
  have 10 characters, or 11 with a leading 0, or 12 with a leading 91; on every other
  string it raises \<open>ValidationError\<close>. So "9876543210", "09876543210" and
  "919876543210" succeed and "12345" fails.
\<close>

theorem validate_phone_iff:
  "validate_phone phone =
     (if (\<forall>c \<in> set phone. c \<in> set ''0123456789'') \<and>
         (length phone = 10 \<or> (length phone = 11 \<and> take 1 phone = ''0'') \<or>
          (length phone = 12 \<and> take 2 phone = ''91''))
      then Inr True
      else Inl (ValidationError ''Phone number must be 10 digits (0 or 91 optional).'')) \<and>
   validate_phone ''9876543210'' = Inr True \<and>
   validate_phone ''09876543210'' = Inr True \<and>
   validate_phone ''919876543210'' = Inr True \<and>
   validate_phone ''12345'' =
     Inl (ValidationError ''Phone number must be 10 digits (0 or 91 optional).'')"
proof -
  have general: "validate_phone s =
     (if (\<forall>c \<in> set s. c \<in> set ''0123456789'') \<and>
         (length s = 10 \<or> (length s = 11 \<and> take 1 s = ''0'') \<or>
          (length s = 12 \<and> take 2 s = ''91''))
      then Inr True
      else Inl (ValidationError ''Phone number must be 10 digits (0 or 91 optional).''))" for s
  proof -
    have "fullmatch phone_pattern s \<longleftrightarrow>
        (\<forall>c \<in> set s. c \<in> set ''0123456789'') \<and>
           (length s = 10 \<or> (length s = 11 \<and> take 1 s = ''0'') \<or>
            (length s = 12 \<and> take 2 s = ''91''))"
      unfolding fullmatch_lang lang_phone_pattern digit_class
      by (rule phone_shape) simp_all
    then show ?thesis unfolding validate_phone_def by simp
  qed
  have "validate_phone ''9876543210'' = Inr True"
    by (simp add: general)
  moreover have "validate_phone ''09876543210'' = Inr True"
    by (simp add: general)
  moreover have "validate_phone ''919876543210'' = Inr True"
    by (simp add: general)
  moreover have "validate_phone ''12345'' =
      Inl (ValidationError ''Phone number must be 10 digits (0 or 91 optional).'')"
    by (simp add: general)
  ultimately show ?thesis using general [of phone] by blast
qed

theorem validate_phone_iff_witness:
  "validate_phone ''09123456789'' = Inr True \<and>
   validate_phone ''+919876543210'' =
     Inl (ValidationError ''Phone number must be 10 digits (0 or 91 optional).'') \<and>
   validate_phone ''19876543210'' =
     Inl (ValidationError ''Phone number must be 10 digits (0 or 91 optional).'')"
  using validate_phone_iff [of "''09123456789''"] validate_phone_iff [of "''+919876543210''"]
    validate_phone_iff [of "''19876543210''"]
  by simp

text \<open>
  C6. \<^verbatim>\<open>validate_name\<close> succeeds exactly on the non-empty strings made only of the
  letters A-Z and a-z and the space; on every other string, the empty one included, it
  raises \<open>ValidationError\<close>. So "John Smith" succeeds, and "John3" and "" fail.
\<close>

theorem validate_name_iff:
  "validate_name name =
     (if name \<noteq> [] \<and>
         (\<forall>c \<in> set name. c \<in> set ''ABCDEFGHIJKLMNOPQRSTUVWXYZabcdefghijklmnopqrstuvwxyz '')
      then Inr True
      else Inl (ValidationError ''Customer name must contain only alphabets and spaces.'')) \<and>
   validate_name ''John Smith'' = Inr True \<and>
   validate_name ''John3'' =
     Inl (ValidationError ''Customer name must contain only alphabets and spaces.'') \<and>
   validate_name [] =
     Inl (ValidationError ''Customer name must contain only alphabets and spaces.'')"
proof -
  have general: "validate_name s =
     (if s \<noteq> [] \<and>
         (\<forall>c \<in> set s. c \<in> set ''ABCDEFGHIJKLMNOPQRSTUVWXYZabcdefghijklmnopqrstuvwxyz '')
      then Inr True
      else Inl (ValidationError ''Customer name must contain only alphabets and spaces.''))" for s
  proof -
    have "fullmatch name_pattern s \<longleftrightarrow> s \<noteq> [] \<and>
           (\<forall>c \<in> set s. c \<in> set ''ABCDEFGHIJKLMNOPQRSTUVWXYZabcdefghijklmnopqrstuvwxyz '')"
      unfolding fullmatch_lang name_pattern_def lang_plus_class name_class ..
    then show ?thesis unfolding validate_name_def by simp
  qed
  have "validate_name ''John Smith'' = Inr True"
    by (simp add: general)
  moreover have "validate_name ''John3'' =
      Inl (ValidationError ''Customer name must contain only alphabets and spaces.'')"
    by (simp add: general)
  moreover have "validate_name [] =
      Inl (ValidationError ''Customer name must contain only alphabets and spaces.'')"
    by (simp add: general)
  ultimately show ?thesis using general [of name] by blast
qed

theorem validate_name_iff_witness:
  "validate_name ''Asha Rao'' = Inr True \<and>
   validate_name ''O'' = Inr True \<and>
   validate_name ''Anne-Marie'' =
     Inl (ValidationError ''Customer name must contain only alphabets and spaces.'')"
  using validate_name_iff [of "''Asha Rao''"] validate_name_iff [of "''O''"]
    validate_name_iff [of "''Anne-Marie''"]
  by simp

section \<open>Cart operations\<close>

lemma snd_add_to_cart:
  "map_of products product = Some p \<Longrightarrow>
   snd (add_to_cart cart product quantity) =
     AList.update product
       (case map_of cart product of None \<Rightarrow> \<lparr>price = p, qty = quantity\<rparr>
        | Some d \<Rightarrow> d\<lparr>qty := qty d + quantity\<rparr>) cart"
  by (simp add: add_to_cart_def add_to_cart_try_def split: option.splits)

lemma in_catalog_Some: "product \<in> set (map fst products) \<Longrightarrow> \<exists>p. map_of products product = Some p"
  by (metis map_of_eq_None_iff not_Some_eq set_map)

lemma add_distinct_keys:
  "distinct (map fst cart) \<Longrightarrow> distinct (map fst (snd (add_to_cart cart product quantity)))"
  by (auto simp: add_to_cart_def add_to_cart_try_def distinct_update split: option.splits sum.splits)

lemma add_line_qty:
  "map_of products product = Some p \<Longrightarrow>
   line_qty (snd (add_to_cart cart product quantity)) k =
     (if k = product then line_qty cart k + quantity else line_qty cart k)"
  by (simp add: snd_add_to_cart line_qty_def update_conv' split: option.splits)

lemma add_key_stays:
  "map_of cart k \<noteq> None \<Longrightarrow> map_of (snd (add_to_cart cart product quantity)) k \<noteq> None"
  by (auto simp: add_to_cart_def add_to_cart_try_def update_conv' split: option.splits sum.splits)

lemma add_key_new:
  "map_of products product = Some p \<Longrightarrow> map_of (snd (add_to_cart cart product quantity)) product \<noteq> None"
  by (simp add: snd_add_to_cart update_conv')

lemma add_all_distinct:
  "distinct (map fst cart) \<Longrightarrow> distinct (map fst (add_all cart adds))"
  by (induction adds arbitrary: cart) (auto simp: add_distinct_keys)

lemma add_all_key_stays:
  "map_of cart k \<noteq> None \<Longrightarrow> map_of (add_all cart adds) k \<noteq> None"
proof (induction adds arbitrary: cart)
  case Nil
  then show ?case by simp
next
  case (Cons a adds)
  obtain product quantity where a: "a = (product, quantity)" by (cases a)
  have "map_of (snd (add_to_cart cart product quantity)) k \<noteq> None"
    using Cons.prems by (rule add_key_stays)
  then show ?case using Cons.IH a by simp
qed

lemma add_all_line_qty:
  "\<forall>a \<in> set adds. fst a \<in> set (map fst products) \<Longrightarrow>
   line_qty (add_all cart adds) k = line_qty cart k + added_qty adds k"
proof (induction adds arbitrary: cart)
  case Nil
  then show ?case by (simp add: added_qty_def)
next
  case (Cons a adds)
  obtain product quantity where a: "a = (product, quantity)" by (cases a)
  from Cons.prems a obtain p where p: "map_of products product = Some p"
    using in_catalog_Some by auto
  have "line_qty (add_all cart (a # adds)) k =
        line_qty (snd (add_to_cart cart product quantity)) k + added_qty adds k"
    using Cons.IH Cons.prems a by simp
  also have "\<dots> = line_qty cart k + added_qty (a # adds) k"
    using p a by (simp add: add_line_qty added_qty_def)
  finally show ?case .
qed

lemma add_all_key_present:
  "\<forall>a \<in> set adds. fst a \<in> set (map fst products) \<Longrightarrow> product \<in> fst ` set adds \<Longrightarrow>
   map_of (add_all cart adds) product \<noteq> None"
proof (induction adds arbitrary: cart)
  case Nil
  then show ?case by simp
next
  case (Cons a adds)
  obtain k quantity where a: "a = (k, quantity)" by (cases a)
  show ?case
  proof (cases "k = product")
    case True
    from Cons.prems a True obtain p where "map_of products product = Some p"
      using in_catalog_Some by auto
    then have "map_of (snd (add_to_cart cart product quantity)) product \<noteq> None"
      by (rule add_key_new)
    then show ?thesis using a True by (simp add: add_all_key_stays)
  next
    case False
    then have "product \<in> fst ` set adds" using Cons.prems(2) a by auto
    then show ?thesis using Cons.IH Cons.prems(1) a by simp
  qed
qed

lemma lines_of_distinct:
  "distinct (map fst cart) \<Longrightarrow> map_of cart product = Some d \<Longrightarrow> lines_of cart product = [d]"
proof (induction cart)
  case Nil
  then show ?case by simp
next
  case (Cons l cart)
  show ?case
  proof (cases "fst l = product")
    case True
    have "fst l \<notin> fst ` set cart" using Cons.prems(1) by simp
    then have "\<forall>x \<in> set cart. fst x \<noteq> product" using True by blast
    then have "filter (\<lambda>l. fst l = product) cart = []"
      by (simp add: filter_empty_conv)
    then show ?thesis using True Cons.prems(2) by (cases l) (simp add: lines_of_def)
  next
    case False
    then show ?thesis using Cons by (cases l) (auto simp: lines_of_def)
  qed
qed

text \<open>
  C2. For a cart (a dictionary: its keys are distinct) and selections that the widgets
  offer (a product of the catalog, a quantity of at least 1), after pressing Add to Cart
  for each selection the cart holds exactly one line for every product selected, and its
  quantity is the quantity the cart had for the product before (0 without a line) plus
  all the quantities added for it. From the empty cart of a new session it is the sum of
  the quantities added.
\<close>

theorem add_accumulates:
  assumes "distinct (map fst cart)"
    and "\<forall>a \<in> set adds. offered_add (fst a) (snd a)"
    and "product \<in> fst ` set adds"
  shows "\<exists>d. lines_of (add_all cart adds) product = [d] \<and>
             qty d = line_qty cart product + added_qty adds product"
proof -
  have cat: "\<forall>a \<in> set adds. fst a \<in> set (map fst products)"
    using assms(2) by (simp add: offered_add_def)
  then obtain d where d: "map_of (add_all cart adds) product = Some d"
    using add_all_key_present [OF cat assms(3)] by blast
  have "lines_of (add_all cart adds) product = [d]"
    using lines_of_distinct [OF add_all_distinct [OF assms(1)] d] .
  moreover have "qty d = line_qty cart product + added_qty adds product"
    using add_all_line_qty [OF cat, of cart product] d by (simp add: line_qty_def)
  ultimately show ?thesis by blast
qed

theorem add_accumulates_witness:
  "\<exists>d. lines_of (add_all [] [(''Apple'', 2), (''Banana'', 1), (''Apple'', 3)]) ''Apple'' = [d] \<and>
       qty d = 5"
  using add_accumulates [of "[]" "[(''Apple'', 2), (''Banana'', 1), (''Apple'', 3)]" "''Apple''"]
  by (simp add: offered_add_def products_def line_qty_def added_qty_def)

text \<open>
  C9. Clear Cart succeeds on every cart, empty or not, leaves the cart empty, and a
  second Clear Cart gives what the first one gave.
\<close>

theorem clear_cart_empties:
  "fst (clear_cart cart) = success ''Cart cleared successfully!'' \<and>
   is_empty (snd (clear_cart cart)) \<and>
   clear_cart (snd (clear_cart cart)) = clear_cart cart"
  by (simp add: clear_cart_def is_empty_def)

theorem clear_cart_empties_witness:
  "is_empty (snd (clear_cart [(''Shirt'', \<lparr>price = 800, qty = 2\<rparr>)])) \<and>
   is_empty (snd (clear_cart []))"
  using clear_cart_empties [of "[(''Shirt'', \<lparr>price = 800, qty = 2\<rparr>)]"]
    clear_cart_empties [of "[]"]
  by simp

section \<open>Rounding to binary64\<close>

text \<open>
  The exponent is the binary exponent of the exact result, and the integer chosen is a
  nearest one, the even one at a tie.
\<close>

lemma floor_log2_bounds:
  assumes "0 < x"
  shows "pow2 (floor_log2 x) \<le> x \<and> x < pow2 (floor_log2 x + 1)"
proof (cases "1 \<le> x")
  case True
  define m where "m = \<lfloor>x\<rfloor>"
  have m1: "1 \<le> m" using True by (simp add: m_def)
  then have mpos: "0 < m" by simp
  have bl1: "1 \<le> bitlen m"
    using bitlen_eq_zero_iff [of m] bitlen_nonneg [of m] mpos by linarith
  define k where "k = nat (bitlen m - 1)"
  have kint: "int k = bitlen m - 1" using bl1 by (simp add: k_def)
  have nb: "nat (bitlen m) = Suc k" using bl1 by (simp add: k_def)
  have lo: "2 ^ k \<le> m" and hi: "m < 2 ^ Suc k"
    using bitlen_bounds [OF mpos] nb by (simp_all add: k_def)
  have fl: "floor_log2 x = int k" using True by (simp add: floor_log2_def m_def kint)
  have "(2 :: rat) ^ k = of_int (2 ^ k)" by simp
  also have "\<dots> \<le> of_int m" using lo by (simp only: of_int_le_iff)
  also have "\<dots> \<le> x" by (simp add: m_def)
  finally have a: "(2 :: rat) ^ k \<le> x" .
  have "m + 1 \<le> 2 ^ Suc k" using hi by simp
  then have le: "(of_int (m + 1) :: rat) \<le> of_int (2 ^ Suc k)" by (simp only: of_int_le_iff)
  have "x < of_int (m + 1)" unfolding m_def using floor_correct [of x] by blast
  also note le
  also have "(of_int (2 ^ Suc k) :: rat) = 2 ^ Suc k" by simp
  finally have b: "x < (2 :: rat) ^ Suc k" .
  have p1: "pow2 (int k) = 2 ^ k" by (simp add: pow2_def)
  have "nat (int k + 1) = Suc k" by simp
  then have p2: "pow2 (int k + 1) = 2 ^ Suc k" by (simp add: pow2_def)
  show ?thesis unfolding fl p1 p2 using a b by simp
next
  case False
  then have x1: "x < 1" by simp
  define N where "N = \<lceil>1 / x\<rceil>"
  have inv1: "1 < 1 / x" using assms x1 by simp
  have N2: "2 \<le> N" using inv1 by (simp add: N_def)
  then have mpos: "0 < N - 1" by simp
  have bl1: "1 \<le> bitlen (N - 1)"
    using bitlen_eq_zero_iff [of "N - 1"] bitlen_nonneg [of "N - 1"] mpos by linarith
  define k where "k = nat (bitlen (N - 1) - 1)"
  have kint: "int k = bitlen (N - 1) - 1" using bl1 by (simp add: k_def)
  have nb: "nat (bitlen (N - 1)) = Suc k" using bl1 by (simp add: k_def)
  have lo: "2 ^ k \<le> N - 1" and hi: "N - 1 < 2 ^ Suc k"
    using bitlen_bounds [OF mpos] nb by (simp_all add: k_def)
  have fl: "floor_log2 x = - int (Suc k)"
    using False kint by (simp add: floor_log2_def N_def)
  have "N \<le> 2 ^ Suc k" using hi by simp
  then have le: "(of_int N :: rat) \<le> of_int (2 ^ Suc k)" by (simp only: of_int_le_iff)
  have "1 / x \<le> of_int N" unfolding N_def using ceiling_correct [of "1 / x"] by blast
  also note le
  also have "(of_int (2 ^ Suc k) :: rat) = 2 ^ Suc k" by simp
  finally have "1 / x \<le> 2 ^ Suc k" .
  then have "1 \<le> 2 ^ Suc k * x" using assms by (simp add: field_simps)
  then have a: "1 / 2 ^ Suc k \<le> x" by (simp add: field_simps)
  have "(2 :: rat) ^ k = of_int (2 ^ k)" by simp
  also have "\<dots> \<le> of_int (N - 1)" using lo by (simp only: of_int_le_iff)
  also have "\<dots> < 1 / x"
    unfolding N_def using ceiling_correct [of "1 / x"] by simp
  finally have "(2 :: rat) ^ k < 1 / x" .
  then have "2 ^ k * x < 1" using assms by (simp add: field_simps)
  then have b: "x < 1 / 2 ^ k" by (simp add: field_simps)
  have "nat (int k + 1) = Suc k" by simp
  then have p1: "pow2 (- int (Suc k)) = 1 / 2 ^ Suc k" by (simp add: pow2_def)
  have "- int (Suc k) + 1 = - int k" by simp
  moreover have "pow2 (- int k) = 1 / 2 ^ k" by (simp add: pow2_def)
  ultimately have p2: "pow2 (- int (Suc k) + 1) = 1 / 2 ^ k" by (simp only:)
  show ?thesis unfolding fl p1 p2 using a b by simp
qed

lemma round_half_even_nearest: "\<bar>of_int (round_half_even z) - z\<bar> \<le> 1 / 2"
proof -
  define f where "f = \<lfloor>z\<rfloor>"
  have b: "of_int f \<le> z" "z < of_int f + 1"
    unfolding f_def using floor_correct [of z] by simp_all
  have r: "round_half_even z =
      (if z - of_int f < 1 / 2 then f
       else if 1 / 2 < z - of_int f then f + 1 else if even f then f else f + 1)"
    by (simp add: round_half_even_def Let_def f_def)
  show ?thesis
  proof (cases "z - of_int f < 1 / 2")
    case True
    then show ?thesis using b by (simp add: r abs_if)
  next
    case False
    note nlt = this
    show ?thesis
    proof (cases "1 / 2 < z - of_int f")
      case True
      then show ?thesis using b nlt by (simp add: r abs_if)
    next
      case False
      then have "z - of_int f = 1 / 2" using nlt by simp
      then show ?thesis by (cases "even f") (simp_all add: r abs_if)
    qed
  qed
qed

lemma round_half_even_tie:
  "z - of_int \<lfloor>z\<rfloor> = 1 / 2 \<Longrightarrow> even (round_half_even z)"
  by (simp add: round_half_even_def Let_def)

text \<open>
  An integer \<open>m\<close> from 1 to below \<open>2 ^ 53\<close>, plus an excess of at most \<open>m / 2 ^ 54\<close>,
  rounds to \<open>m\<close>.
\<close>

lemma round_half_even_near:
  assumes "0 \<le> eps" and "eps < 1 / 2"
  shows "round_half_even (of_int M + eps) = M"
proof -
  have fl: "\<lfloor>of_int M + eps\<rfloor> = M"
    using assms by (simp add: floor_unique)
  show ?thesis
    unfolding round_half_even_def Let_def fl using assms by simp
qed

lemma pow2_nonpos: "e \<le> 0 \<Longrightarrow> pow2 e = 1 / 2 ^ nat (- e)"
  by (auto simp: pow2_def)

lemma round_double_near_int:
  fixes m :: int and dlt :: rat
  assumes m1: "1 \<le> m" and m53: "m < 2 ^ 53" and d0: "0 \<le> dlt"
    and dm: "dlt * 2 ^ 54 \<le> of_int m"
  shows "round_double (of_int m + dlt) = Finite (of_int m)"
proof -
  define k where "k = nat (bitlen m - 1)"
  have mpos: "0 < m" using m1 by simp
  have bl1: "1 \<le> bitlen m"
    using bitlen_eq_zero_iff [of m] bitlen_nonneg [of m] mpos by linarith
  have kint: "int k = bitlen m - 1" using bl1 by (simp add: k_def)
  have nb: "nat (bitlen m) = Suc k" using bl1 by (simp add: k_def)
  have lo: "2 ^ k \<le> m" and hi: "m < 2 ^ Suc k"
    using bitlen_bounds [OF mpos] nb by (simp_all add: k_def)
  from lo m53 have p53: "(2::int) ^ k < 2 ^ 53" by (rule le_less_trans)
  have k53: "k < 53" by (rule power_less_imp_less_exp [OF _ p53]) simp
  define j where "j = 52 - k"
  have kj: "k + j = 52" using k53 by (simp add: j_def)
  let ?x = "of_int m + dlt :: rat"
  have mrat: "(of_int m :: rat) < 2 ^ Suc k"
  proof -
    have "(of_int m :: rat) < of_int (2 ^ Suc k)" using hi by (simp only: of_int_less_iff)
    then show ?thesis by simp
  qed
  have dhalf: "dlt * 2 ^ j < 1 / 2"
  proof -
    have "dlt * 2 ^ 54 < 2 ^ Suc k" using dm mrat by linarith
    then have "dlt * 2 ^ 54 * 2 ^ j < 2 ^ Suc k * 2 ^ j" by simp
    also have "(2::rat) ^ Suc k * 2 ^ j = 2 ^ (Suc k + j)" by (simp only: power_add)
    also have "Suc k + j = 53" using kj by simp
    finally have "dlt * 2 ^ j * 2 ^ 54 < 2 ^ 53" by (simp add: mult.commute mult.left_commute)
    then show ?thesis by simp
  qed
  have d12: "dlt < 1 / 2"
  proof -
    have "dlt * 1 \<le> dlt * 2 ^ j" using d0 by (intro mult_left_mono) simp_all
    then show ?thesis using dhalf by simp
  qed
  have xpos: "0 < ?x" and x1: "1 \<le> ?x" using m1 d0 by simp_all
  have flx: "\<lfloor>?x\<rfloor> = m" using d0 d12 by (simp add: floor_unique)
  have fl2: "floor_log2 \<bar>?x\<bar> = int k"
    using x1 xpos flx by (simp add: floor_log2_def kint)
  have e: "max (floor_log2 \<bar>?x\<bar>) (- 1022) = int k" by (simp add: fl2)
  have ulp: "pow2 (int k - 52) = 1 / 2 ^ j"
    using k53 by (simp add: pow2_nonpos j_def)
  have xdiv: "?x / pow2 (int k - 52) = of_int (m * 2 ^ j) + dlt * 2 ^ j"
    by (simp add: ulp algebra_simps)
  have rnd: "round_half_even (?x / pow2 (int k - 52)) = m * 2 ^ j"
    unfolding xdiv using d0 dhalf by (intro round_half_even_near) simp_all
  have y: "of_int (m * 2 ^ j) * pow2 (int k - 52) = (of_int m :: rat)"
    by (simp add: ulp)
  have small: "\<not> pow2 1024 \<le> \<bar>of_int m :: rat\<bar>"
  proof -
    have "(of_int m :: rat) < of_int (2 ^ 53)" using m53 by (simp only: of_int_less_iff)
    then have "(of_int m :: rat) < 2 ^ 53" by simp
    also have "(2::rat) ^ 53 \<le> 2 ^ 1024" by (intro power_increasing) simp_all
    finally show ?thesis using m1 by (simp add: pow2_def)
  qed
  have nz: "?x \<noteq> 0" using xpos by simp
  show ?thesis
    unfolding round_double_def Let_def e rnd y using nz small by simp
qed

lemma round_double_int:
  assumes "0 \<le> n" and "n < 2 ^ 53"
  shows "round_double (of_int n) = Finite (of_int n)"
proof (cases "n = 0")
  case True
  then show ?thesis by (simp add: round_double_def)
next
  case False
  then have "1 \<le> n" using assms(1) by simp
  then have "round_double (of_int n + 0) = Finite (of_int n)"
    using assms(2) by (intro round_double_near_int) simp_all
  then show ?thesis by simp
qed

lemma float_of_int_exact:
  "0 \<le> n \<Longrightarrow> n < 2 ^ 53 \<Longrightarrow> float_of_int n = Inr (Finite (of_int n))"
  by (simp add: float_of_int_def round_double_int)

lemma gst_rate_value: "gst_rate = Finite (3602879701896397 / 36028797018963968)"
  by code_simp

lemma tenth_of_ten_times:
  assumes "0 \<le> m" and "m < 2 ^ 53"
  shows "fmul (Finite (of_int (10 * m))) gst_rate = Finite (of_int m)"
proof (cases "m = 0")
  case True
  then show ?thesis by (simp add: gst_rate_value round_double_def)
next
  case False
  then have m1: "1 \<le> m" using assms(1) by simp
  have "(of_int (10 * m) :: rat) * (3602879701896397 / 36028797018963968) =
        of_int m + of_int m / 2 ^ 54"
    by simp
  moreover have "round_double (of_int m + of_int m / 2 ^ 54) = Finite (of_int m)"
    using m1 assms(2) by (intro round_double_near_int) simp_all
  ultimately show ?thesis by (simp add: gst_rate_value)
qed

lemma exact_figures:
  assumes "0 \<le> s" and "10 dvd s" and "11 * s < 10 * 2 ^ 53"
  shows "float_of_int s = Inr (Finite (of_int s))"
    and "fmul (Finite (of_int s)) gst_rate = Finite (of_int s / 10)"
    and "fadd (Finite (of_int s)) (Finite (of_int s / 10)) = Finite (of_int s + of_int s / 10)"
proof -
  from assms(2) obtain m where s: "s = 10 * m" by (elim dvdE)
  have m0: "0 \<le> m" using assms(1) s by simp
  have m11: "11 * m < 2 ^ 53" using assms(3) s by simp
  then have m53: "m < 2 ^ 53" and s53: "s < 2 ^ 53" using m0 s by simp_all
  show "float_of_int s = Inr (Finite (of_int s))"
    using assms(1) s53 by (rule float_of_int_exact)
  have tenth: "(of_int s :: rat) / 10 = of_int m" using s by simp
  show "fmul (Finite (of_int s)) gst_rate = Finite (of_int s / 10)"
    unfolding tenth using tenth_of_ten_times [OF m0 m53] s by simp
  have "round_double (of_int (11 * m)) = Finite (of_int (11 * m))"
    using m0 m11 by (intro round_double_int) simp_all
  moreover have "(of_int s :: rat) + of_int m = of_int (11 * m)" using s by simp
  ultimately show "fadd (Finite (of_int s)) (Finite (of_int s / 10)) =
      Finite (of_int s + of_int s / 10)"
    unfolding tenth by simp
qed

section \<open>What generate_invoice writes and leaves\<close>

lemma invoice_items_eq:
  "invoice_items cart tot invoice =
     (tot + sum_list (map (\<lambda>(item, d). price d * qty d) cart),
      invoice @
      map (\<lambda>(item, d).
             item @ '' - '' @ str_int (qty d) @ '' pcs - '' @ rupee @ str_int (price d * qty d))
        cart)"
  by (induction cart tot invoice rule: invoice_items.induct) (simp_all add: Let_def)

lemma invoice_text_value:
  assumes "float_of_int (sum_list (map (\<lambda>(item, d). price d * qty d) cart)) = Inr t"
  shows "invoice_text e customer_name phone cart =
     Inr (join nl
       ([''********** INVOICE **********'' @ nl,
         ''Customer Name: '' @ customer_name,
         ''Phone Number: '' @ phone,
         ''Date: '' @ now e @ nl,
         ''Items Purchased:''] @
        map (\<lambda>(item, d).
               item @ '' - '' @ str_int (qty d) @ '' pcs - '' @ rupee @ str_int (price d * qty d))
          cart @
        [nl @ ''Subtotal: '' @ rupee @
           str_int (sum_list (map (\<lambda>(item, d). price d * qty d) cart)),
         ''GST (10%): '' @ rupee @ float_str e (fmul t gst_rate),
         ''Total Amount: '' @ rupee @ float_str e (fadd t (fmul t gst_rate)),
         nl @ ''Thank you for shopping with us!'']))"
  using assms by (simp add: invoice_text_def invoice_items_eq Let_def)

lemma invoice_text_overflow:
  assumes "float_of_int (sum_list (map (\<lambda>(item, d). price d * qty d) cart)) = Inl err"
  shows "invoice_text e customer_name phone cart = Inl err"
  using assms by (simp add: invoice_text_def invoice_items_eq)

lemma float_str_int:
  assumes "\<bar>m\<bar> < 10 ^ 16"
  shows "float_str e (Finite (of_int m)) = str_int m @ ''.0''"
proof -
  have "\<bar>of_int m :: rat\<bar> = of_int \<bar>m\<bar>" by simp
  also have "\<dots> < of_int (10 ^ 16)" using assms by (simp only: of_int_less_iff)
  finally have "\<bar>of_int m :: rat\<bar> < 10 ^ 16" by simp
  then show ?thesis by (simp add: float_str_def)
qed

lemma generate_invoice_cart:
  "snd (snd (generate_invoice e fs filename customer_name phone cart)) = cart"
  by (simp add: generate_invoice_def split: sum.splits option.splits)

lemma generate_invoice_writes:
  assumes "float_of_int (sum_list (map (\<lambda>(item, d). price d * qty d) cart)) = Inr t"
    and "float_str e (fmul t gst_rate) = gst"
    and "float_str e (fadd t (fmul t gst_rate)) = total_amount"
    and "opens e (filename @ ''.txt'')"
    and "write_error e (filename @ ''.txt'')
          (join nl
            ([''********** INVOICE **********'' @ nl,
              ''Customer Name: '' @ customer_name,
              ''Phone Number: '' @ phone,
              ''Date: '' @ now e @ nl,
              ''Items Purchased:''] @
             map (\<lambda>(item, d).
                    item @ '' - '' @ str_int (qty d) @ '' pcs - '' @ rupee @
                    str_int (price d * qty d)) cart @
             [nl @ ''Subtotal: '' @ rupee @
                str_int (sum_list (map (\<lambda>(item, d). price d * qty d) cart)),
              ''GST (10%): '' @ rupee @ gst,
              ''Total Amount: '' @ rupee @ total_amount,
              nl @ ''Thank you for shopping with us!''])) = None"
  shows "generate_invoice e fs filename customer_name phone cart =
      (Inr (filename @ ''.txt''),
       fs(filename @ ''.txt'' \<mapsto>
          join nl
            ([''********** INVOICE **********'' @ nl,
              ''Customer Name: '' @ customer_name,
              ''Phone Number: '' @ phone,
              ''Date: '' @ now e @ nl,
              ''Items Purchased:''] @
             map (\<lambda>(item, d).
                    item @ '' - '' @ str_int (qty d) @ '' pcs - '' @ rupee @
                    str_int (price d * qty d)) cart @
             [nl @ ''Subtotal: '' @ rupee @
                str_int (sum_list (map (\<lambda>(item, d). price d * qty d) cart)),
              ''GST (10%): '' @ rupee @ gst,
              ''Total Amount: '' @ rupee @ total_amount,
              nl @ ''Thank you for shopping with us!''])),
       cart)"
proof -
  note v = invoice_text_value [OF assms(1), of e customer_name phone, unfolded assms(2) assms(3)]
  show ?thesis
    unfolding generate_invoice_def v using assms(4) assms(5) by simp
qed

lemma exact_texts:
  assumes "0 \<le> s" and "10 dvd s" and "11 * s < 10 * 2 ^ 53"
  shows "float_str e (fmul (Finite (of_int s)) gst_rate) = str_int (s div 10) @ ''.0''"
    and "float_str e (fadd (Finite (of_int s)) (fmul (Finite (of_int s)) gst_rate)) =
         str_int (s + s div 10) @ ''.0''"
    and "fmul (Finite (of_int s)) gst_rate = Finite (of_int (s div 10))"
    and "fadd (Finite (of_int s)) (fmul (Finite (of_int s)) gst_rate) =
         Finite (of_int (s + s div 10))"
proof -
  note ex = exact_figures [OF assms]
  from assms(2) obtain m where s: "s = 10 * m" by (elim dvdE)
  have t: "(of_int s :: rat) / 10 = of_int (s div 10)" using s by simp
  have u: "(of_int s :: rat) + of_int s / 10 = of_int (s + s div 10)" using s by simp
  show g: "fmul (Finite (of_int s)) gst_rate = Finite (of_int (s div 10))"
    using ex(2) t by simp
  show a: "fadd (Finite (of_int s)) (fmul (Finite (of_int s)) gst_rate) =
      Finite (of_int (s + s div 10))"
    using ex(2) ex(3) u by simp
  have "(2 :: int) ^ 53 < 10 ^ 16" by simp
  then have b1: "\<bar>s div 10\<bar> < 10 ^ 16" and b2: "\<bar>s + s div 10\<bar> < 10 ^ 16"
    using assms(1) assms(3) s by simp_all
  show "float_str e (fmul (Finite (of_int s)) gst_rate) = str_int (s div 10) @ ''.0''"
    unfolding g using b1 by (rule float_str_int)
  show "float_str e (fadd (Finite (of_int s)) (fmul (Finite (of_int s)) gst_rate)) =
      str_int (s + s div 10) @ ''.0''"
    unfolding a using b2 by (rule float_str_int)
qed

lemma str_int_examples:
  "str_int 3 = ''3''" "str_int 2 = ''2''" "str_int 240 = ''240''" "str_int 80 = ''80''"
  "str_int 320 = ''320''" "str_int 32 = ''32''" "str_int 352 = ''352''"
  by code_simp+

text \<open>
  C8. \<^verbatim>\<open>generate_invoice\<close> leaves the cart it is given as it was, whether it returns
  or raises: every line, quantity and unit price is the same afterwards, and no file but
  \<^verbatim>\<open>filename + ".txt"\<close> is touched. When it returns, it returns that path and the file
  holds the invoice text. When it raises, either no file has changed (the total is too
  large for a float, or the file could not be opened), or the file was opened and the
  write failed, and the file holds what the failed write left. It returns whenever the
  text can be built, the file opened and the text written, and the text can be built
  for every subtotal from 0 to below \<open>2 ^ 53\<close>. Clearing the cart is left to the caller.
\<close>

theorem generate_invoice_keeps_cart:
  "\<exists>r fs'. generate_invoice e fs filename customer_name phone cart = (r, fs', cart) \<and>
     (\<forall>p. p \<noteq> filename @ ''.txt'' \<longrightarrow> fs' p = fs p) \<and>
     (case r of
        Inr file_path \<Rightarrow>
          file_path = filename @ ''.txt'' \<and>
          (\<exists>body. invoice_text e customer_name phone cart = Inr body \<and>
                  write_error e file_path body = None \<and>
                  fs' file_path = Some body)
      | Inl err \<Rightarrow>
          fs' = fs \<or>
          (\<exists>body left. invoice_text e customer_name phone cart = Inr body \<and>
                  opens e (filename @ ''.txt'') \<and>
                  write_error e (filename @ ''.txt'') body = Some (err, left) \<and>
                  fs' = fs(filename @ ''.txt'' \<mapsto> left))) \<and>
     (\<forall>body. invoice_text e customer_name phone cart = Inr body \<and>
             opens e (filename @ ''.txt'') \<and>
             write_error e (filename @ ''.txt'') body = None \<longrightarrow>
        r = Inr (filename @ ''.txt'')) \<and>
     (0 \<le> sum_list (map (\<lambda>(item, d). price d * qty d) cart) \<and>
      sum_list (map (\<lambda>(item, d). price d * qty d) cart) < 2 ^ 53 \<longrightarrow>
        (\<exists>body. invoice_text e customer_name phone cart = Inr body))"
proof -
  have built: "\<exists>body. invoice_text e customer_name phone cart = Inr body"
    if "0 \<le> sum_list (map (\<lambda>(item, d). price d * qty d) cart) \<and>
      sum_list (map (\<lambda>(item, d). price d * qty d) cart) < 2 ^ 53"
  proof -
    from that have "float_of_int (sum_list (map (\<lambda>(item, d). price d * qty d) cart)) =
        Inr (Finite (of_int (sum_list (map (\<lambda>(item, d). price d * qty d) cart))))"
      by (intro float_of_int_exact) simp_all
    from invoice_text_value [OF this, of e customer_name phone] show ?thesis by blast
  qed
  show ?thesis
  proof (cases "invoice_text e customer_name phone cart")
    case (Inl err)
    then have "generate_invoice e fs filename customer_name phone cart = (Inl err, fs, cart)"
      by (simp add: generate_invoice_def)
    then show ?thesis using Inl built by auto
  next
    case (Inr body)
    show ?thesis
    proof (cases "opens e (filename @ ''.txt'')")
      case False
      then have "generate_invoice e fs filename customer_name phone cart =
          (Inl (OSError (filename @ ''.txt'')), fs, cart)"
        using Inr by (simp add: generate_invoice_def)
      then show ?thesis using Inr False by auto
    next
      case True
      show ?thesis
      proof (cases "write_error e (filename @ ''.txt'') body")
        case None
        then have "generate_invoice e fs filename customer_name phone cart =
            (Inr (filename @ ''.txt''), fs(filename @ ''.txt'' \<mapsto> body), cart)"
          using Inr True by (simp add: generate_invoice_def)
        then show ?thesis using Inr True None by auto
      next
        case (Some el)
        obtain err left where el: "el = (err, left)" by (cases el)
        have "generate_invoice e fs filename customer_name phone cart =
            (Inl err, fs(filename @ ''.txt'' \<mapsto> left), cart)"
          using Inr True Some el by (simp add: generate_invoice_def)
        then show ?thesis using Inr True Some el by auto
      qed
    qed
  qed
qed

theorem generate_invoice_keeps_cart_witness:
  "\<exists>r fs'. generate_invoice
       \<lparr>now = ''2024-01-01 10:00:00'', repr_other = (\<lambda>x. []), opens = (\<lambda>p. True),
        write_error = (\<lambda>p b. None), reads = (\<lambda>p. True)\<rparr>
       Map.empty ''invoice1'' ''John Smith'' ''9876543210''
       [(''Apple'', \<lparr>price = 80, qty = 3\<rparr>), (''Banana'', \<lparr>price = 40, qty = 2\<rparr>)] =
     (r, fs', [(''Apple'', \<lparr>price = 80, qty = 3\<rparr>), (''Banana'', \<lparr>price = 40, qty = 2\<rparr>)]) \<and>
     r = Inr ''invoice1.txt'' \<and>
     fs' ''other.txt'' = None"
proof -
  let ?e = "\<lparr>now = ''2024-01-01 10:00:00'', repr_other = (\<lambda>x. []), opens = (\<lambda>p. True),
        write_error = (\<lambda>p b. None), reads = (\<lambda>p. True)\<rparr>"
  let ?c = "[(''Apple'', \<lparr>price = 80, qty = 3\<rparr>), (''Banana'', \<lparr>price = 40, qty = 2\<rparr>)]"
  from generate_invoice_keeps_cart [of ?e Map.empty "''invoice1''" "''John Smith''" "''9876543210''" ?c]
  obtain r fs' where g: "generate_invoice ?e Map.empty ''invoice1'' ''John Smith'' ''9876543210'' ?c =
      (r, fs', ?c)"
    and o: "\<forall>p. p \<noteq> ''invoice1'' @ ''.txt'' \<longrightarrow> fs' p = Map.empty p"
    and w: "\<forall>body. invoice_text ?e ''John Smith'' ''9876543210'' ?c = Inr body \<and>
             opens ?e (''invoice1'' @ ''.txt'') \<and>
             write_error ?e (''invoice1'' @ ''.txt'') body = None \<longrightarrow>
        r = Inr (''invoice1'' @ ''.txt'')"
    and b: "0 \<le> sum_list (map (\<lambda>(item, d). price d * qty d) ?c) \<and>
      sum_list (map (\<lambda>(item, d). price d * qty d) ?c) < 2 ^ 53 \<longrightarrow>
        (\<exists>body. invoice_text ?e ''John Smith'' ''9876543210'' ?c = Inr body)"
    by blast
  from b obtain body where "invoice_text ?e ''John Smith'' ''9876543210'' ?c = Inr body"
    by auto
  with w have "r = Inr (''invoice1'' @ ''.txt'')" by simp
  then have r: "r = Inr ''invoice1.txt''" by simp
  have "fs' ''other.txt'' = Map.empty ''other.txt''" using o by simp
  then have "fs' ''other.txt'' = None" by simp
  with g r show ?thesis by blast
qed

section \<open>Place Order\<close>

text \<open>
  C7. Place Order on an empty cart shows the error "Cart is empty! Add items before
  placing order." and does nothing else: no file is written or changed, and the cart
  is still empty, whatever name, phone number and file name were entered.
\<close>

theorem place_order_empty_cart:
  "is_empty cart \<Longrightarrow>
   place_order e fs cart customer_name phone filename =
     ([error_text ''Cart is empty! Add items before placing order.''], fs, [])"
  by (simp add: place_order_def is_empty_def)

theorem place_order_empty_cart_witness:
  "is_empty [] \<and>
   place_order \<lparr>now = ''2024-01-01 10:00:00'', repr_other = (\<lambda>x. []), opens = (\<lambda>p. True),
        write_error = (\<lambda>p b. None), reads = (\<lambda>p. True)\<rparr>
       Map.empty [] ''John Smith'' ''9876543210'' ''invoice1'' =
     ([error_text ''Cart is empty! Add items before placing order.''], Map.empty, [])"
proof -
  have e: "is_empty []" by (simp add: is_empty_def)
  from place_order_empty_cart [OF e] e show ?thesis by blast
qed

lemma place_order_cart:
  "snd (snd (place_order e fs cart customer_name phone filename)) = cart \<or>
   snd (snd (place_order e fs cart customer_name phone filename)) = []"
proof -
  obtain r fs' where g: "generate_invoice e fs filename customer_name phone cart = (r, fs', cart)"
    using generate_invoice_cart [of e fs filename customer_name phone cart]
    by (cases "generate_invoice e fs filename customer_name phone cart") auto
  show ?thesis
    by (cases r) (simp_all add: place_order_def g split: sum.splits)
qed

section \<open>Prices in reachable carts\<close>

lemma set_update_subset: "set (AList.update k v al) \<subseteq> insert (k, v) (set al)"
  by (induction al) auto

lemma set_delete_subset: "set (AList.delete k al) \<subseteq> set al"
  by (auto simp: AList.delete_eq)

lemma priced_add: "priced cart \<Longrightarrow> priced (snd (add_to_cart cart product quantity))"
proof -
  assume p: "priced cart"
  show ?thesis
  proof (cases "map_of products product")
    case None
    then show ?thesis using p by (simp add: add_to_cart_def add_to_cart_try_def)
  next
    case (Some pr)
    define v where "v = (case map_of cart product of
        None \<Rightarrow> \<lparr>price = pr, qty = quantity\<rparr>
      | Some d \<Rightarrow> d\<lparr>qty := qty d + quantity\<rparr>)"
    have res: "snd (add_to_cart cart product quantity) = AList.update product v cart"
      unfolding v_def using Some by (rule snd_add_to_cart)
    have pv: "price v = pr"
    proof (cases "map_of cart product")
      case None
      then show ?thesis by (simp add: v_def)
    next
      case (Some d)
      then have "(product, d) \<in> set cart" by (rule map_of_SomeD)
      then have "map_of products product = Some (price d)"
        using p by (auto simp: priced_def)
      then show ?thesis using Some \<open>map_of products product = Some pr\<close> by (simp add: v_def)
    qed
    have "set (AList.update product v cart) \<subseteq> insert (product, v) (set cart)"
      by (rule set_update_subset)
    then have "priced (AList.update product v cart)"
      using p pv Some by (auto simp: priced_def)
    then show ?thesis by (simp only: res)
  qed
qed

lemma priced_update: "priced cart \<Longrightarrow> priced (snd (update_quantity cart selected_item new_qty))"
proof -
  assume p: "priced cart"
  show ?thesis
  proof (cases "map_of cart selected_item")
    case None
    then show ?thesis using p by (simp add: update_quantity_def)
  next
    case (Some d)
    then have "(selected_item, d) \<in> set cart" by (rule map_of_SomeD)
    then have pd: "map_of products selected_item = Some (price d)"
      using p by (auto simp: priced_def)
    have "set (AList.update selected_item (d\<lparr>qty := new_qty\<rparr>) cart) \<subseteq>
        insert (selected_item, d\<lparr>qty := new_qty\<rparr>) (set cart)"
      by (rule set_update_subset)
    then have "priced (AList.update selected_item (d\<lparr>qty := new_qty\<rparr>) cart)"
      using p pd by (auto simp: priced_def)
    then show ?thesis using Some p by (simp add: update_quantity_def)
  qed
qed

lemma priced_remove: "priced cart \<Longrightarrow> priced (snd (remove_item cart selected_item))"
proof -
  assume p: "priced cart"
  have "priced (AList.delete selected_item cart)"
    using p set_delete_subset [of selected_item cart] by (auto simp: priced_def)
  then show ?thesis
    using p by (simp add: remove_item_def split: option.splits)
qed

lemma priced_empty: "priced []"
  by (simp add: priced_def)

lemma reachable_priced: "reachable cart \<Longrightarrow> priced cart"
proof (induction rule: reachable.induct)
  case start
  show ?case by (rule priced_empty)
next
  case (add cart product quantity)
  then show ?case by (simp add: priced_add)
next
  case (update cart selected_item new_qty)
  then show ?case by (simp add: priced_update)
next
  case (remove cart selected_item)
  then show ?case by (simp add: priced_remove)
next
  case (clear cart)
  show ?case by (simp add: clear_cart_def priced_empty)
next
  case (order cart e fs customer_name phone filename)
  then show ?case
    using place_order_cart [of e fs cart customer_name phone filename]
    by (auto simp: priced_empty)
qed

text \<open>
  C10. In every cart a session can reach from the empty cart by Add to Cart, Update
  Quantity, Remove Item, Clear Cart and Place Order, with whatever inputs, the unit
  price stored in a line is the catalog's price of the line's product.
\<close>

theorem reachable_prices:
  "reachable cart \<Longrightarrow> (product, d) \<in> set cart \<Longrightarrow> map_of products product = Some (price d)"
  using reachable_priced [of cart] by (auto simp: priced_def)

theorem reachable_prices_witness:
  "reachable [(''Apple'', \<lparr>price = 80, qty = 7\<rparr>)] \<and>
   map_of products ''Apple'' = Some (price \<lparr>price = 80, qty = 7\<rparr>)"
proof -
  have a: "snd (add_to_cart [] ''Apple'' 3) = [(''Apple'', \<lparr>price = 80, qty = 3\<rparr>)]"
    by (simp add: add_to_cart_def add_to_cart_try_def products_def)
  have u: "snd (update_quantity [(''Apple'', \<lparr>price = 80, qty = 3\<rparr>)] ''Apple'' 7) =
      [(''Apple'', \<lparr>price = 80, qty = 7\<rparr>)]"
    by (simp add: update_quantity_def is_empty_def)
  have "reachable (snd (add_to_cart [] ''Apple'' 3))"
    by (rule reachable.add [OF reachable.start])
  then have "reachable (snd (update_quantity (snd (add_to_cart [] ''Apple'' 3)) ''Apple'' 7))"
    by (rule reachable.update)
  then have r: "reachable [(''Apple'', \<lparr>price = 80, qty = 7\<rparr>)]"
    by (simp only: a u)
  have "(''Apple'', \<lparr>price = 80, qty = 7\<rparr>) \<in> set [(''Apple'', \<lparr>price = 80, qty = 7\<rparr>)]"
    by simp
  from reachable_prices [OF r this] r show ?thesis by blast
qed

lemma catalog_price_dvd: "map_of products product = Some x \<Longrightarrow> 20 dvd x"
  by (auto simp: products_def split: if_splits)

lemma priced_subtotal_dvd:
  "priced cart \<Longrightarrow> 20 dvd sum_list (map (\<lambda>(item, d). price d * qty d) cart)"
proof (induction cart)
  case Nil
  show ?case by simp
next
  case (Cons l cart)
  obtain item d where l: "l = (item, d)" by (cases l)
  have "map_of products item = Some (price d)"
    using Cons.prems l by (simp add: priced_def)
  then have "20 dvd price d" by (rule catalog_price_dvd)
  then have "20 dvd price d * qty d" by (rule dvd_mult2)
  moreover have "20 dvd sum_list (map (\<lambda>(item, d). price d * qty d) cart)"
    using Cons by (simp add: priced_def)
  ultimately show ?case using l by simp
qed

lemma reachable_subtotal_dvd:
  "reachable cart \<Longrightarrow> 10 dvd sum_list (map (\<lambda>(item, d). price d * qty d) cart)"
proof -
  assume "reachable cart"
  then have "20 dvd sum_list (map (\<lambda>(item, d). price d * qty d) cart)"
    by (intro priced_subtotal_dvd reachable_priced)
  moreover have "(10::int) dvd 20" by simp
  ultimately show ?thesis by (rule dvd_trans [rotated])
qed

section \<open>Invoice figures\<close>

text \<open>
  C1. For every cart, \<^verbatim>\<open>generate_invoice\<close> writes to \<^verbatim>\<open>filename + ".txt"\<close> the header,
  one line per cart line with its cost (unit price times quantity), the subtotal as the
  sum of the costs, the GST as the float product of the subtotal and the rate 0.10, the
  total amount as the float sum of the subtotal and the GST, and the closing line; it
  returns the path and leaves the cart. This holds whenever the subtotal converts to a
  float (otherwise the call raises the conversion's error and writes nothing) and the
  file can be opened and written. Where the subtotal is a multiple of 10, as it is in
  every cart a session can reach, and is not negative and below \<open>10 / 11 * 2 ^ 53\<close>,
  the two floats are exact, a tenth of the subtotal and the subtotal plus that tenth,
  and are written as integers followed by \<^verbatim>\<open>.0\<close>. For the cart of 3 Apple at 80 and 2
  Banana at 40 the invoice reads subtotal 320, GST 32.0 and total amount 352.0.
\<close>

theorem generate_invoice_figures:
  "(let path = filename @ ''.txt'';
        subtotal = sum_list (map (\<lambda>(item, d). price d * qty d) cart);
        doc = (\<lambda>gst total_amount.
          join nl
            ([''********** INVOICE **********'' @ nl,
              ''Customer Name: '' @ customer_name,
              ''Phone Number: '' @ phone,
              ''Date: '' @ now e @ nl,
              ''Items Purchased:''] @
             map (\<lambda>(item, d).
                    item @ '' - '' @ str_int (qty d) @ '' pcs - '' @ rupee @
                    str_int (price d * qty d)) cart @
             [nl @ ''Subtotal: '' @ rupee @ str_int subtotal,
              ''GST (10%): '' @ rupee @ gst,
              ''Total Amount: '' @ rupee @ total_amount,
              nl @ ''Thank you for shopping with us!'']))
    in
     (\<forall>t. float_of_int subtotal = Inr t \<and> opens e path \<and>
          write_error e path
            (doc (float_str e (fmul t gst_rate))
                 (float_str e (fadd t (fmul t gst_rate)))) = None \<longrightarrow>
        generate_invoice e fs filename customer_name phone cart =
          (Inr path,
           fs(path \<mapsto> doc (float_str e (fmul t gst_rate))
                           (float_str e (fadd t (fmul t gst_rate)))),
           cart)) \<and>
     (\<forall>err. float_of_int subtotal = Inl err \<longrightarrow>
        generate_invoice e fs filename customer_name phone cart = (Inl err, fs, cart)) \<and>
     ((10 dvd subtotal \<or> reachable cart) \<and> 0 \<le> subtotal \<and> 11 * subtotal < 10 * 2 ^ 53 \<longrightarrow>
        float_of_int subtotal = Inr (Finite (of_int subtotal)) \<and>
        fmul (Finite (of_int subtotal)) gst_rate = Finite (of_int (subtotal div 10)) \<and>
        fadd (Finite (of_int subtotal)) (Finite (of_int (subtotal div 10))) =
          Finite (of_int (subtotal + subtotal div 10)) \<and>
        (opens e path \<and>
         write_error e path
           (doc (str_int (subtotal div 10) @ ''.0'')
                (str_int (subtotal + subtotal div 10) @ ''.0'')) = None \<longrightarrow>
           generate_invoice e fs filename customer_name phone cart =
             (Inr path,
              fs(path \<mapsto> doc (str_int (subtotal div 10) @ ''.0'')
                              (str_int (subtotal + subtotal div 10) @ ''.0'')),
              cart)))) \<and>
   (let body =
      join nl
        [''********** INVOICE **********'' @ nl,
         ''Customer Name: '' @ customer_name,
         ''Phone Number: '' @ phone,
         ''Date: '' @ now e @ nl,
         ''Items Purchased:'',
         ''Apple - 3 pcs - '' @ rupee @ ''240'',
         ''Banana - 2 pcs - '' @ rupee @ ''80'',
         nl @ ''Subtotal: '' @ rupee @ ''320'',
         ''GST (10%): '' @ rupee @ ''32.0'',
         ''Total Amount: '' @ rupee @ ''352.0'',
         nl @ ''Thank you for shopping with us!'']
    in
     float_of_int 320 = Inr (Finite 320) \<and>
     fmul (Finite 320) gst_rate = Finite 32 \<and>
     fadd (Finite 320) (Finite 32) = Finite 352 \<and>
     (opens e (filename @ ''.txt'') \<and> write_error e (filename @ ''.txt'') body = None \<longrightarrow>
        generate_invoice e fs filename customer_name phone
          [(''Apple'', \<lparr>price = 80, qty = 3\<rparr>), (''Banana'', \<lparr>price = 40, qty = 2\<rparr>)] =
        (Inr (filename @ ''.txt''), fs(filename @ ''.txt'' \<mapsto> body),
         [(''Apple'', \<lparr>price = 80, qty = 3\<rparr>), (''Banana'', \<lparr>price = 40, qty = 2\<rparr>)])))"
proof -
  have general: "generate_invoice e fs filename customer_name phone c =
      (Inr (filename @ ''.txt''),
       fs(filename @ ''.txt'' \<mapsto>
          join nl
            ([''********** INVOICE **********'' @ nl,
              ''Customer Name: '' @ customer_name,
              ''Phone Number: '' @ phone,
              ''Date: '' @ now e @ nl,
              ''Items Purchased:''] @
             map (\<lambda>(item, d).
                    item @ '' - '' @ str_int (qty d) @ '' pcs - '' @ rupee @
                    str_int (price d * qty d)) c @
             [nl @ ''Subtotal: '' @ rupee @
                str_int (sum_list (map (\<lambda>(item, d). price d * qty d) c)),
              ''GST (10%): '' @ rupee @ gst,
              ''Total Amount: '' @ rupee @ total_amount,
              nl @ ''Thank you for shopping with us!''])),
       c)"
    if "float_of_int (sum_list (map (\<lambda>(item, d). price d * qty d) c)) = Inr t"
      and "float_str e (fmul t gst_rate) = gst"
      and "float_str e (fadd t (fmul t gst_rate)) = total_amount"
      and "opens e (filename @ ''.txt'')"
      and "write_error e (filename @ ''.txt'')
          (join nl
            ([''********** INVOICE **********'' @ nl,
              ''Customer Name: '' @ customer_name,
              ''Phone Number: '' @ phone,
              ''Date: '' @ now e @ nl,
              ''Items Purchased:''] @
             map (\<lambda>(item, d).
                    item @ '' - '' @ str_int (qty d) @ '' pcs - '' @ rupee @
                    str_int (price d * qty d)) c @
             [nl @ ''Subtotal: '' @ rupee @
                str_int (sum_list (map (\<lambda>(item, d). price d * qty d) c)),
              ''GST (10%): '' @ rupee @ gst,
              ''Total Amount: '' @ rupee @ total_amount,
              nl @ ''Thank you for shopping with us!''])) = None"
    for c t gst total_amount
    using that by (rule generate_invoice_writes)
  have raises: "generate_invoice e fs filename customer_name phone cart = (Inl err, fs, cart)"
    if "float_of_int (sum_list (map (\<lambda>(item, d). price d * qty d) cart)) = Inl err" for err
    using invoice_text_overflow [OF that, of e customer_name phone]
    by (simp add: generate_invoice_def)
  have dvd: "10 dvd sum_list (map (\<lambda>(item, d). price d * qty d) cart)"
    if "10 dvd sum_list (map (\<lambda>(item, d). price d * qty d) cart) \<or> reachable cart"
    using that reachable_subtotal_dvd by blast
  have ex320: "float_of_int 320 = Inr (Finite 320)"
    "fmul (Finite 320) gst_rate = Finite 32"
    "fadd (Finite 320) (Finite 32) = Finite 352"
    "float_str e (fmul (Finite 320) gst_rate) = ''32.0''"
    "float_str e (fadd (Finite 320) (fmul (Finite 320) gst_rate)) = ''352.0''"
    using exact_figures [of 320] exact_texts(1,2) [of 320 e] exact_texts(3,4) [of 320]
    by (simp_all add: str_int_examples)
  show ?thesis
    unfolding Let_def
  proof (intro conjI allI impI)
    fix t
    assume "float_of_int (sum_list (map (\<lambda>(item, d). price d * qty d) cart)) = Inr t \<and>
      opens e (filename @ ''.txt'') \<and>
      write_error e (filename @ ''.txt'')
        (join nl
          ([''********** INVOICE **********'' @ nl,
            ''Customer Name: '' @ customer_name,
            ''Phone Number: '' @ phone,
            ''Date: '' @ now e @ nl,
            ''Items Purchased:''] @
           map (\<lambda>(item, d).
                  item @ '' - '' @ str_int (qty d) @ '' pcs - '' @ rupee @
                  str_int (price d * qty d)) cart @
           [nl @ ''Subtotal: '' @ rupee @
              str_int (sum_list (map (\<lambda>(item, d). price d * qty d) cart)),
            ''GST (10%): '' @ rupee @ float_str e (fmul t gst_rate),
            ''Total Amount: '' @ rupee @ float_str e (fadd t (fmul t gst_rate)),
            nl @ ''Thank you for shopping with us!''])) = None"
    then show "generate_invoice e fs filename customer_name phone cart =
      (Inr (filename @ ''.txt''),
       fs(filename @ ''.txt'' \<mapsto>
          join nl
            ([''********** INVOICE **********'' @ nl,
              ''Customer Name: '' @ customer_name,
              ''Phone Number: '' @ phone,
              ''Date: '' @ now e @ nl,
              ''Items Purchased:''] @
             map (\<lambda>(item, d).
                    item @ '' - '' @ str_int (qty d) @ '' pcs - '' @ rupee @
                    str_int (price d * qty d)) cart @
             [nl @ ''Subtotal: '' @ rupee @
                str_int (sum_list (map (\<lambda>(item, d). price d * qty d) cart)),
              ''GST (10%): '' @ rupee @ float_str e (fmul t gst_rate),
              ''Total Amount: '' @ rupee @ float_str e (fadd t (fmul t gst_rate)),
              nl @ ''Thank you for shopping with us!''])),
       cart)"
      by (intro general) simp_all
  next
    fix err
    assume "float_of_int (sum_list (map (\<lambda>(item, d). price d * qty d) cart)) = Inl err"
    then show "generate_invoice e fs filename customer_name phone cart = (Inl err, fs, cart)"
      by (rule raises)
  next
    assume a: "(10 dvd sum_list (map (\<lambda>(item, d). price d * qty d) cart) \<or> reachable cart) \<and>
      0 \<le> sum_list (map (\<lambda>(item, d). price d * qty d) cart) \<and>
      11 * sum_list (map (\<lambda>(item, d). price d * qty d) cart) < 10 * 2 ^ 53"
    then have d: "10 dvd sum_list (map (\<lambda>(item, d). price d * qty d) cart)"
      using dvd by blast
    note ef = exact_figures [OF _ d]
    note et12 = exact_texts(1,2) [OF _ d, of e]
    note et34 = exact_texts(3,4) [OF _ d]
    show "float_of_int (sum_list (map (\<lambda>(item, d). price d * qty d) cart)) =
        Inr (Finite (of_int (sum_list (map (\<lambda>(item, d). price d * qty d) cart))))"
      using a by (intro ef(1)) simp_all
    show "fmul (Finite (of_int (sum_list (map (\<lambda>(item, d). price d * qty d) cart)))) gst_rate =
        Finite (of_int (sum_list (map (\<lambda>(item, d). price d * qty d) cart) div 10))"
      using a by (intro et34(1)) simp_all
    have "fadd (Finite (of_int (sum_list (map (\<lambda>(item, d). price d * qty d) cart))))
          (fmul (Finite (of_int (sum_list (map (\<lambda>(item, d). price d * qty d) cart)))) gst_rate) =
        Finite (of_int (sum_list (map (\<lambda>(item, d). price d * qty d) cart) +
          sum_list (map (\<lambda>(item, d). price d * qty d) cart) div 10))"
      using a by (intro et34(2)) simp_all
    moreover have "fmul (Finite (of_int (sum_list (map (\<lambda>(item, d). price d * qty d) cart)))) gst_rate =
        Finite (of_int (sum_list (map (\<lambda>(item, d). price d * qty d) cart) div 10))"
      using a by (intro et34(1)) simp_all
    ultimately show "fadd (Finite (of_int (sum_list (map (\<lambda>(item, d). price d * qty d) cart))))
          (Finite (of_int (sum_list (map (\<lambda>(item, d). price d * qty d) cart) div 10))) =
        Finite (of_int (sum_list (map (\<lambda>(item, d). price d * qty d) cart) +
          sum_list (map (\<lambda>(item, d). price d * qty d) cart) div 10))"
      by (simp only:)
  next
    assume a: "(10 dvd sum_list (map (\<lambda>(item, d). price d * qty d) cart) \<or> reachable cart) \<and>
      0 \<le> sum_list (map (\<lambda>(item, d). price d * qty d) cart) \<and>
      11 * sum_list (map (\<lambda>(item, d). price d * qty d) cart) < 10 * 2 ^ 53"
    then have d: "10 dvd sum_list (map (\<lambda>(item, d). price d * qty d) cart)"
      using dvd by blast
    note ef = exact_figures [OF _ d]
    note et12 = exact_texts(1,2) [OF _ d, of e]
    note et34 = exact_texts(3,4) [OF _ d]
    assume w: "opens e (filename @ ''.txt'') \<and>
      write_error e (filename @ ''.txt'')
        (join nl
          ([''********** INVOICE **********'' @ nl,
            ''Customer Name: '' @ customer_name,
            ''Phone Number: '' @ phone,
            ''Date: '' @ now e @ nl,
            ''Items Purchased:''] @
           map (\<lambda>(item, d).
                  item @ '' - '' @ str_int (qty d) @ '' pcs - '' @ rupee @
                  str_int (price d * qty d)) cart @
           [nl @ ''Subtotal: '' @ rupee @
              str_int (sum_list (map (\<lambda>(item, d). price d * qty d) cart)),
            ''GST (10%): '' @ rupee @
              (str_int (sum_list (map (\<lambda>(item, d). price d * qty d) cart) div 10) @ ''.0''),
            ''Total Amount: '' @ rupee @
              (str_int (sum_list (map (\<lambda>(item, d). price d * qty d) cart) +
                 sum_list (map (\<lambda>(item, d). price d * qty d) cart) div 10) @ ''.0''),
            nl @ ''Thank you for shopping with us!''])) = None"
    show "generate_invoice e fs filename customer_name phone cart =
      (Inr (filename @ ''.txt''),
       fs(filename @ ''.txt'' \<mapsto>
          join nl
            ([''********** INVOICE **********'' @ nl,
              ''Customer Name: '' @ customer_name,
              ''Phone Number: '' @ phone,
              ''Date: '' @ now e @ nl,
              ''Items Purchased:''] @
             map (\<lambda>(item, d).
                    item @ '' - '' @ str_int (qty d) @ '' pcs - '' @ rupee @
                    str_int (price d * qty d)) cart @
             [nl @ ''Subtotal: '' @ rupee @
                str_int (sum_list (map (\<lambda>(item, d). price d * qty d) cart)),
              ''GST (10%): '' @ rupee @
                (str_int (sum_list (map (\<lambda>(item, d). price d * qty d) cart) div 10) @ ''.0''),
              ''Total Amount: '' @ rupee @
                (str_int (sum_list (map (\<lambda>(item, d). price d * qty d) cart) +
                   sum_list (map (\<lambda>(item, d). price d * qty d) cart) div 10) @ ''.0''),
              nl @ ''Thank you for shopping with us!''])),
       cart)"
    proof (rule general)
      show "float_of_int (sum_list (map (\<lambda>(item, d). price d * qty d) cart)) =
          Inr (Finite (of_int (sum_list (map (\<lambda>(item, d). price d * qty d) cart))))"
        using a by (intro ef(1)) simp_all
      show "float_str e
          (fmul (Finite (of_int (sum_list (map (\<lambda>(item, d). price d * qty d) cart)))) gst_rate) =
          str_int (sum_list (map (\<lambda>(item, d). price d * qty d) cart) div 10) @ ''.0''"
        using a by (intro et12(1)) simp_all
      show "float_str e
          (fadd (Finite (of_int (sum_list (map (\<lambda>(item, d). price d * qty d) cart))))
            (fmul (Finite (of_int (sum_list (map (\<lambda>(item, d). price d * qty d) cart)))) gst_rate)) =
          str_int (sum_list (map (\<lambda>(item, d). price d * qty d) cart) +
            sum_list (map (\<lambda>(item, d). price d * qty d) cart) div 10) @ ''.0''"
        using a by (intro et12(2)) simp_all
      show "opens e (filename @ ''.txt'')" using w by blast
      show "write_error e (filename @ ''.txt'')
        (join nl
          ([''********** INVOICE **********'' @ nl,
            ''Customer Name: '' @ customer_name,
            ''Phone Number: '' @ phone,
            ''Date: '' @ now e @ nl,
            ''Items Purchased:''] @
           map (\<lambda>(item, d).
                  item @ '' - '' @ str_int (qty d) @ '' pcs - '' @ rupee @
                  str_int (price d * qty d)) cart @
           [nl @ ''Subtotal: '' @ rupee @
              str_int (sum_list (map (\<lambda>(item, d). price d * qty d) cart)),
            ''GST (10%): '' @ rupee @
              (str_int (sum_list (map (\<lambda>(item, d). price d * qty d) cart) div 10) @ ''.0''),
            ''Total Amount: '' @ rupee @
              (str_int (sum_list (map (\<lambda>(item, d). price d * qty d) cart) +
                 sum_list (map (\<lambda>(item, d). price d * qty d) cart) div 10) @ ''.0''),
            nl @ ''Thank you for shopping with us!''])) = None"
        using w by blast
    qed
  next
    show "float_of_int 320 = Inr (Finite 320)" by (rule ex320(1))
    show "fmul (Finite 320) gst_rate = Finite 32" by (rule ex320(2))
    show "fadd (Finite 320) (Finite 32) = Finite 352" by (rule ex320(3))
  next
    let ?c = "[(''Apple'', \<lparr>price = 80, qty = 3\<rparr>), (''Banana'', \<lparr>price = 40, qty = 2\<rparr>)]"
    assume w: "opens e (filename @ ''.txt'') \<and>
      write_error e (filename @ ''.txt'')
        (join nl
          [''********** INVOICE **********'' @ nl,
           ''Customer Name: '' @ customer_name,
           ''Phone Number: '' @ phone,
           ''Date: '' @ now e @ nl,
           ''Items Purchased:'',
           ''Apple - 3 pcs - '' @ rupee @ ''240'',
           ''Banana - 2 pcs - '' @ rupee @ ''80'',
           nl @ ''Subtotal: '' @ rupee @ ''320'',
           ''GST (10%): '' @ rupee @ ''32.0'',
           ''Total Amount: '' @ rupee @ ''352.0'',
           nl @ ''Thank you for shopping with us!'']) = None"
    have s: "sum_list (map (\<lambda>(item, d). price d * qty d) ?c) = 320" by simp
    have "generate_invoice e fs filename customer_name phone ?c =
      (Inr (filename @ ''.txt''),
       fs(filename @ ''.txt'' \<mapsto>
          join nl
            ([''********** INVOICE **********'' @ nl,
              ''Customer Name: '' @ customer_name,
              ''Phone Number: '' @ phone,
              ''Date: '' @ now e @ nl,
              ''Items Purchased:''] @
             map (\<lambda>(item, d).
                    item @ '' - '' @ str_int (qty d) @ '' pcs - '' @ rupee @
                    str_int (price d * qty d)) ?c @
             [nl @ ''Subtotal: '' @ rupee @
                str_int (sum_list (map (\<lambda>(item, d). price d * qty d) ?c)),
              ''GST (10%): '' @ rupee @ ''32.0'',
              ''Total Amount: '' @ rupee @ ''352.0'',
              nl @ ''Thank you for shopping with us!''])),
       ?c)"
    proof (rule general)
      show "float_of_int (sum_list (map (\<lambda>(item, d). price d * qty d) ?c)) = Inr (Finite 320)"
        unfolding s by (rule ex320(1))
      show "float_str e (fmul (Finite 320) gst_rate) = ''32.0''" by (rule ex320(4))
      show "float_str e (fadd (Finite 320) (fmul (Finite 320) gst_rate)) = ''352.0''"
        by (rule ex320(5))
      show "opens e (filename @ ''.txt'')" using w by blast
      show "write_error e (filename @ ''.txt'')
        (join nl
          ([''********** INVOICE **********'' @ nl,
            ''Customer Name: '' @ customer_name,
            ''Phone Number: '' @ phone,
            ''Date: '' @ now e @ nl,
            ''Items Purchased:''] @
           map (\<lambda>(item, d).
                  item @ '' - '' @ str_int (qty d) @ '' pcs - '' @ rupee @
                  str_int (price d * qty d)) ?c @
           [nl @ ''Subtotal: '' @ rupee @
              str_int (sum_list (map (\<lambda>(item, d). price d * qty d) ?c)),
            ''GST (10%): '' @ rupee @ ''32.0'',
            ''Total Amount: '' @ rupee @ ''352.0'',
            nl @ ''Thank you for shopping with us!''])) = None"
        using w by (simp add: str_int_examples)
    qed
    then show "generate_invoice e fs filename customer_name phone ?c =
        (Inr (filename @ ''.txt''),
         fs(filename @ ''.txt'' \<mapsto>
           join nl
            [''********** INVOICE **********'' @ nl,
             ''Customer Name: '' @ customer_name,
             ''Phone Number: '' @ phone,
             ''Date: '' @ now e @ nl,
             ''Items Purchased:'',
             ''Apple - 3 pcs - '' @ rupee @ ''240'',
             ''Banana - 2 pcs - '' @ rupee @ ''80'',
             nl @ ''Subtotal: '' @ rupee @ ''320'',
             ''GST (10%): '' @ rupee @ ''32.0'',
             ''Total Amount: '' @ rupee @ ''352.0'',
             nl @ ''Thank you for shopping with us!'']),
         ?c)"
      by (simp add: str_int_examples)
  qed
qed

theorem generate_invoice_figures_witness:
  "generate_invoice
     \<lparr>now = ''2024-01-01 10:00:00'', repr_other = (\<lambda>x. []), opens = (\<lambda>p. True),
      write_error = (\<lambda>p b. None), reads = (\<lambda>p. True)\<rparr>
     Map.empty ''invoice1'' ''John Smith'' ''9876543210''
     [(''Apple'', \<lparr>price = 80, qty = 3\<rparr>), (''Banana'', \<lparr>price = 40, qty = 2\<rparr>)] =
   (Inr ''invoice1.txt'',
    [''invoice1.txt'' \<mapsto>
       join nl
         [''********** INVOICE **********'' @ nl,
          ''Customer Name: John Smith'',
          ''Phone Number: 9876543210'',
          ''Date: 2024-01-01 10:00:00'' @ nl,
          ''Items Purchased:'',
          ''Apple - 3 pcs - '' @ rupee @ ''240'',
          ''Banana - 2 pcs - '' @ rupee @ ''80'',
          nl @ ''Subtotal: '' @ rupee @ ''320'',
          ''GST (10%): '' @ rupee @ ''32.0'',
          ''Total Amount: '' @ rupee @ ''352.0'',
          nl @ ''Thank you for shopping with us!'']],
    [(''Apple'', \<lparr>price = 80, qty = 3\<rparr>), (''Banana'', \<lparr>price = 40, qty = 2\<rparr>)])"
proof -
  let ?e = "\<lparr>now = ''2024-01-01 10:00:00'', repr_other = (\<lambda>x. []), opens = (\<lambda>p. True),
      write_error = (\<lambda>p b. None), reads = (\<lambda>p. True)\<rparr>"
  note t = generate_invoice_figures
    [where e = ?e and fs = Map.empty and filename = "''invoice1''"
       and customer_name = "''John Smith''" and phone = "''9876543210''" and cart = "[]",
     THEN conjunct2, unfolded Let_def, THEN conjunct2, THEN conjunct2, THEN conjunct2]
  have "opens ?e (''invoice1'' @ ''.txt'')" by simp
  moreover have "write_error ?e (''invoice1'' @ ''.txt'') b = None" for b by simp
  ultimately show ?thesis using t by simp
qed

end
